theory Spec2Isabelle
  imports Main "HOL-Library.Word"
begin

section \<open>Errors\<close>

text \<open>
  A Go \<open>error\<close> is a message, possibly wrapping another error:
  \<open>fmt.Errorf("prefix: %w", err)\<close> is \<open>Errorf ''prefix: '' err\<close>, and \<open>Unwrap\<close>
  gives \<open>err\<close> back.
\<close>

datatype error = New string | Errorf string error

fun Error :: "error \<Rightarrow> string" where
  "Error (New msg) = msg"
| "Error (Errorf prefix err) = prefix @ Error err"

fun Unwrap :: "error \<Rightarrow> error option" where
  "Unwrap (New msg) = None"
| "Unwrap (Errorf prefix err) = Some err"

section \<open>Identifiers (github.com/google/uuid)\<close>

text \<open>
  Modelled from the spec: \<open>uuid.New().String()\<close>, of the library
  \<open>github.com/google/uuid\<close> that the program imports and that is not part of its
  sources. The spec has it give a ``generated unique identifier'', ``freshly generated'',
  ``non-empty'' and ``different from any previous call's ID''. The state of the generator
  is the number of identifiers it has handed out; a call returns the next identifier, a
  string one character longer than the one before it, and the new state.
\<close>

definition uuid_New :: "nat \<Rightarrow> string \<times> nat" where
  "uuid_New n = (replicate (Suc n) (CHR ''u''), Suc n)"

section \<open>Data (pkg/nodeprop/interfaces.go, pkg/nodeprop/types.go)\<close>

text \<open>
  A \<open>time.Time\<close> is \<open>None\<close> for the zero time (\<open>IsZero\<close>) and \<open>Some t\<close> for the
  instant \<open>t\<close>, in Unix nanoseconds. Fields that several structs share keep their names
  and are written with the name of the struct, as in \<open>Workflow.Name\<close>.
\<close>

type_synonym Time = "int option"

type_synonym Variables = "string \<rightharpoonup> string"

record WorkflowArguments =
  Repository :: string
  Name :: string
  Content :: string
  Template :: string
  Variables :: Variables
  Reference :: string

record SecretArguments =
  Repository :: string
  Name :: string
  Value :: string
  Visibility :: string

record NodePropArguments =
  RepoPath :: string
  RepoName :: string
  Domain :: string
  Config :: string
  Variables :: Variables

record Workflow =
  ID :: string
  Name :: string
  Path :: string
  Content :: string
  Created :: Time
  Updated :: Time
  Status :: string

record Secret =
  Name :: string
  Created :: Time
  Updated :: Time
  Visibility :: string

record SecretReference =
  Name :: string
  Repository :: string
  Created :: Time
  Updated :: Time
  Visibility :: string

record PRInfo =
  Open :: int
  Closed :: int

record GitHub =
  Stars :: int
  Forks :: int
  Issues :: int
  PullRequests :: PRInfo
  LatestCommit :: string
  License :: string
  Topics :: "string list"

record DockerfileInfo =
  ExposedPorts :: "string list"
  EnvVars :: "string list"
  Cmd :: string
  Entrypoint :: string
  Volumes :: "string list"

record Service =
  Name :: string
  Ports :: "string list"
  EnvVars :: "string list"
  Volumes :: "string list"

record DockerCompose =
  Services :: "Service list"
  Ports :: "string \<rightharpoonup> int list"
  Volumes :: "string \<rightharpoonup> string list"
  EnvVars :: "string \<rightharpoonup> string list"
  Command :: "string \<rightharpoonup> string"

record Docker =
  Dockerfile :: DockerfileInfo
  DockerCompose :: DockerCompose

record Metadata =
  Description :: string
  Owner :: string
  LastUpdated :: string
  Tags :: "string list"
  GitHub :: GitHub
  Docker :: Docker

record CustomProperties =
  DeployEnvironment :: string
  MonitoringEnabled :: bool
  AutoScale :: bool
  Service :: string
  App :: string
  Image :: string
  Ports :: "string list"
  Volumes :: "string list"
  Network :: string
  Domain :: string

record NodePropFile =
  ID :: string
  Name :: string
  Address :: string
  Capabilities :: "string list"
  Status :: string
  Metadata :: Metadata
  CustomProperties :: CustomProperties

text \<open>
  What the program passes as \<open>interface{}\<close>: the data of an event and the value of a
  cache entry.
\<close>

datatype Payload =
    OfNil
  | OfWorkflow Workflow
  | OfSecret Secret
  | OfSecretReference SecretReference
  | OfNodePropFile NodePropFile
  | OfError error

section \<open>The TTL cache (pkg/nodeprop/cache.go)\<close>

text \<open>
  Times are Unix nanoseconds and durations are nanoseconds, both \<open>int64\<close> in the
  source. They are modelled as \<open>int\<close>; the one place where the source computes a new
  \<open>int64\<close> from them, \<open>time.Now().Add(duration).UnixNano()\<close>, wraps to 64 bits.
  The reading of the clock is an argument \<open>now\<close> of every operation that calls
  \<open>time.Now()\<close>.
\<close>

definition MaxInt64 :: int where
  "MaxInt64 = 9223372036854775807"

definition UnixNano_Add :: "int \<Rightarrow> int \<Rightarrow> int" where
  "UnixNano_Add now d = signed_take_bit 63 (now + d)"

record 'v CacheItem =
  Value :: 'v
  Expiration :: int

record CacheStats =
  Hits :: "64 word"
  Misses :: "64 word"
  Evictions :: "64 word"
  Size :: "64 word"

record 'v Cache =
  items :: "string \<rightharpoonup> 'v CacheItem"
  defaultExpiration :: int
  cleanupInterval :: int
  maxItems :: int
  stats :: CacheStats

text \<open>\<open>len(c.items)\<close>.\<close>

definition len_items :: "'v Cache \<Rightarrow> nat" where
  "len_items c = card (dom (items c))"

text \<open>
  \<open>for k, v := range c.items\<close>: Go visits every entry of the map once, in an order
  the language leaves unspecified. The order of one such loop is an argument \<open>ks\<close> of
  the operation; \<open>range_order m ks\<close> says that \<open>ks\<close> is an order in which the keys
  of \<open>m\<close> can be visited. A key deleted earlier in the same loop is not visited.
\<close>

definition range_order :: "(string \<rightharpoonup> 'a) \<Rightarrow> string list \<Rightarrow> bool" where
  "range_order m ks = (distinct ks \<and> set ks = dom m)"

text \<open>
  The loop of \<open>evictOldest\<close>; the pair is \<open>(oldestKey, oldestTime)\<close>.
\<close>

fun evictOldest_scan ::
  "(string \<rightharpoonup> 'v CacheItem) \<Rightarrow> string list \<Rightarrow> string \<times> int \<Rightarrow> string \<times> int" where
  "evictOldest_scan m [] acc = acc"
| "evictOldest_scan m (k # ks) (oldestKey, oldestTime) =
     (case m k of
        None \<Rightarrow> evictOldest_scan m ks (oldestKey, oldestTime)
      | Some v \<Rightarrow>
          if Expiration v < oldestTime
          then evictOldest_scan m ks (k, Expiration v)
          else evictOldest_scan m ks (oldestKey, oldestTime))"

definition evictOldest :: "string list \<Rightarrow> 'v Cache \<Rightarrow> 'v Cache" where
  "evictOldest ks c =
     (let oldestKey = fst (evictOldest_scan (items c) ks ('''', MaxInt64))
      in if oldestKey \<noteq> ''''
         then c\<lparr>items := (items c)(oldestKey := None),
                stats := (stats c)\<lparr>Evictions := Evictions (stats c) + 1\<rparr>\<rparr>
         else c)"

text \<open>
  \<open>Set\<close>: \<open>now\<close> is the clock reading, \<open>ks\<close> the order of the loop in
  \<open>evictOldest\<close>.
\<close>

definition Set ::
  "int \<Rightarrow> string list \<Rightarrow> string \<Rightarrow> 'v \<Rightarrow> int \<Rightarrow> 'v Cache \<Rightarrow> 'v Cache" where
  "Set now ks key val duration c =
     (let duration' = (if duration = 0 then defaultExpiration c else duration);
          expiration = (if duration' > 0 then UnixNano_Add now duration' else 0);
          c1 = (if int (len_items c) \<ge> maxItems c then evictOldest ks c else c);
          c2 = c1\<lparr>items := (items c1)(key \<mapsto> \<lparr>Value = val, Expiration = expiration\<rparr>)\<rparr>
      in c2\<lparr>stats := (stats c2)\<lparr>Size := of_nat (len_items c2)\<rparr>\<rparr>)"

text \<open>
  \<open>Get\<close> returns \<open>(value, found)\<close>: \<open>None\<close> is \<open>(nil, false)\<close>. The counters it
  updates are part of the cache, so the cache is returned as well.
\<close>

definition Get :: "int \<Rightarrow> string \<Rightarrow> 'v Cache \<Rightarrow> 'v option \<times> 'v Cache" where
  "Get now key c =
     (case items c key of
        None \<Rightarrow> (None, c\<lparr>stats := (stats c)\<lparr>Misses := Misses (stats c) + 1\<rparr>\<rparr>)
      | Some item \<Rightarrow>
          if Expiration item > 0 \<and> now > Expiration item
          then (None, c\<lparr>stats := (stats c)\<lparr>Misses := Misses (stats c) + 1\<rparr>\<rparr>)
          else (Some (Value item), c\<lparr>stats := (stats c)\<lparr>Hits := Hits (stats c) + 1\<rparr>\<rparr>))"

text \<open>
  \<open>GetWithExpiration\<close>: the expiration time is \<open>None\<close> for the zero \<open>time.Time\<close>.
  A found entry that has an expiration is returned without counting a hit.
\<close>

definition GetWithExpiration ::
  "int \<Rightarrow> string \<Rightarrow> 'v Cache \<Rightarrow> ('v \<times> int option) option \<times> 'v Cache" where
  "GetWithExpiration now key c =
     (case items c key of
        None \<Rightarrow> (None, c\<lparr>stats := (stats c)\<lparr>Misses := Misses (stats c) + 1\<rparr>\<rparr>)
      | Some item \<Rightarrow>
          if Expiration item > 0
          then (if now > Expiration item
                then (None, c\<lparr>stats := (stats c)\<lparr>Misses := Misses (stats c) + 1\<rparr>\<rparr>)
                else (Some (Value item, Some (Expiration item)), c))
          else (Some (Value item, None),
                c\<lparr>stats := (stats c)\<lparr>Hits := Hits (stats c) + 1\<rparr>\<rparr>))"

definition Delete :: "string \<Rightarrow> 'v Cache \<Rightarrow> 'v Cache" where
  "Delete key c =
     (let c1 = c\<lparr>items := (items c)(key := None)\<rparr>
      in c1\<lparr>stats := (stats c1)\<lparr>Size := of_nat (len_items c1)\<rparr>\<rparr>)"

definition Clear :: "'v Cache \<Rightarrow> 'v Cache" where
  "Clear c = c\<lparr>items := Map.empty, stats := (stats c)\<lparr>Size := 0\<rparr>\<rparr>"

text \<open>\<open>Items\<close>: the values of the entries that have not expired.\<close>

definition Items :: "int \<Rightarrow> 'v Cache \<Rightarrow> (string \<rightharpoonup> 'v)" where
  "Items now c =
     (\<lambda>k. case items c k of
        None \<Rightarrow> None
      | Some v \<Rightarrow> if Expiration v = 0 \<or> now < Expiration v then Some (Value v) else None)"

definition ItemCount :: "'v Cache \<Rightarrow> int" where
  "ItemCount c = int (len_items c)"

definition Stats :: "'v Cache \<Rightarrow> CacheStats" where
  "Stats c = stats c"

text \<open>The loop of \<open>DeleteExpired\<close>, over the keys in the order \<open>ks\<close>.\<close>

fun DeleteExpired_loop :: "int \<Rightarrow> string list \<Rightarrow> 'v Cache \<Rightarrow> 'v Cache" where
  "DeleteExpired_loop now [] c = c"
| "DeleteExpired_loop now (k # ks) c =
     (case items c k of
        None \<Rightarrow> DeleteExpired_loop now ks c
      | Some v \<Rightarrow>
          if Expiration v > 0 \<and> now > Expiration v
          then DeleteExpired_loop now ks
                 (c\<lparr>items := (items c)(k := None),
                    stats := (stats c)\<lparr>Evictions := Evictions (stats c) + 1\<rparr>\<rparr>)
          else DeleteExpired_loop now ks c)"

definition DeleteExpired :: "int \<Rightarrow> string list \<Rightarrow> 'v Cache \<Rightarrow> 'v Cache" where
  "DeleteExpired now ks c =
     (let c1 = DeleteExpired_loop now ks c
      in c1\<lparr>stats := (stats c1)\<lparr>Size := of_nat (len_items c1)\<rparr>\<rparr>)"

text \<open>
  \<open>Flush\<close> hands every entry to \<open>persistItem\<close>, which the source leaves as a stub
  that returns \<open>nil\<close>; the first failure would stop the loop.
\<close>

definition persistItem :: "string \<Rightarrow> 'v CacheItem \<Rightarrow> error option" where
  "persistItem key item = None"

fun Flush_loop :: "(string \<rightharpoonup> 'v CacheItem) \<Rightarrow> string list \<Rightarrow> error option" where
  "Flush_loop m [] = None"
| "Flush_loop m (k # ks) =
     (case m k of
        None \<Rightarrow> Flush_loop m ks
      | Some v \<Rightarrow>
          (case persistItem k v of
             Some err \<Rightarrow> Some (Errorf (''failed to persist cache item '' @ k @ '': '') err)
           | None \<Rightarrow> Flush_loop m ks))"

definition Flush :: "string list \<Rightarrow> 'v Cache \<Rightarrow> error option" where
  "Flush ks c = Flush_loop (items c) ks"

text \<open>
  \<open>NewCache\<close> with the options applied in order; the cleanup goroutine it starts calls
  \<open>DeleteExpired\<close> at every tick.
\<close>

datatype CacheOption = WithExpiration int | WithCleanupInterval int | WithMaxItems int

fun apply_option :: "'v Cache \<Rightarrow> CacheOption \<Rightarrow> 'v Cache" where
  "apply_option c (WithExpiration d) = c\<lparr>defaultExpiration := d\<rparr>"
| "apply_option c (WithCleanupInterval d) = c\<lparr>cleanupInterval := d\<rparr>"
| "apply_option c (WithMaxItems n) = c\<lparr>maxItems := n\<rparr>"

definition NewCache :: "CacheOption list \<Rightarrow> 'v Cache" where
  "NewCache opts =
     foldl apply_option
       \<lparr>items = Map.empty,
        defaultExpiration = 3600000000000,
        cleanupInterval = 300000000000,
        maxItems = 10000,
        stats = \<lparr>Hits = 0, Misses = 0, Evictions = 0, Size = 0\<rparr>\<rparr>
       opts"

subsection \<open>Predicates used to state the properties of the cache\<close>

text \<open>An entry's expiration is set and has passed at time \<open>now\<close>.\<close>

definition has_passed :: "int \<Rightarrow> 'v CacheItem \<Rightarrow> bool" where
  "has_passed now v = (Expiration v > 0 \<and> now > Expiration v)"

definition expired_key :: "int \<Rightarrow> (string \<rightharpoonup> 'v CacheItem) \<Rightarrow> string \<Rightarrow> bool" where
  "expired_key now m k = (case m k of None \<Rightarrow> False | Some v \<Rightarrow> has_passed now v)"

text \<open>The key \<open>k\<close> holds an entry whose \<open>Expiration\<close> field is \<open>t\<close>.\<close>

definition expires_at :: "(string \<rightharpoonup> 'v CacheItem) \<Rightarrow> int \<Rightarrow> string \<Rightarrow> bool" where
  "expires_at m t k = (case m k of None \<Rightarrow> False | Some v \<Rightarrow> Expiration v = t)"

text \<open>
  A cache filled at time 10 with one entry that expires at 50, one that never expires and
  one that expires at 200.
\<close>

definition sweep_example :: "nat Cache" where
  "sweep_example =
     Set 10 [] ''c'' 3 190 (Set 10 [] ''b'' 2 (- 1) (Set 10 [] ''a'' 1 40 (NewCache [])))"

text \<open>
  A cache of capacity 3 that is full: \<open>''a''\<close> expires at 50, \<open>''b''\<close> at 30 and
  \<open>''c''\<close> at 200.
\<close>

definition full_example :: "nat Cache" where
  "full_example =
     Set 10 [] ''c'' 3 190 (Set 10 [] ''b'' 2 20
       (Set 10 [] ''a'' 1 40 (NewCache [WithMaxItems 3])))"

text \<open>A full cache of capacity 2 whose two entries never expire.\<close>

definition tie_example :: "nat Cache" where
  "tie_example =
     Set 10 [] ''b'' 2 (- 1) (Set 10 [] ''a'' 1 (- 1) (NewCache [WithMaxItems 2]))"

text \<open>
  A full cache of capacity 2: \<open>''a''\<close> never expires, \<open>''b''\<close> expires at 50.
\<close>

definition mixed_example :: "nat Cache" where
  "mixed_example =
     Set 10 [] ''b'' 2 40 (Set 10 [] ''a'' 1 (- 1) (NewCache [WithMaxItems 2]))"

text \<open>
  A full cache of capacity 2 in which the entry that expires first has the empty string as
  its key.
\<close>

definition empty_key_example :: "nat Cache" where
  "empty_key_example =
     Set 10 [] ''b'' 2 40 (Set 10 [] '''' 1 20 (NewCache [WithMaxItems 2]))"

text \<open>
  The calls a client can make on a cache, and the cache each of them leaves behind.
  \<open>removes call c k\<close> is the condition under which the call takes the entry at key
  \<open>k\<close> out of the cache \<open>c\<close>.
\<close>

datatype 'v CacheCall =
    CallSet int "string list" string 'v int
  | CallGet int string
  | CallGetWithExpiration int string
  | CallDelete string
  | CallClear
  | CallItems int
  | CallItemCount
  | CallStats
  | CallDeleteExpired int "string list"
  | CallFlush "string list"

fun cache_after :: "'v CacheCall \<Rightarrow> 'v Cache \<Rightarrow> 'v Cache" where
  "cache_after (CallSet now ks key val d) c = Set now ks key val d c"
| "cache_after (CallGet now key) c = snd (Get now key c)"
| "cache_after (CallGetWithExpiration now key) c = snd (GetWithExpiration now key c)"
| "cache_after (CallDelete key) c = Delete key c"
| "cache_after CallClear c = Clear c"
| "cache_after (CallItems now) c = c"
| "cache_after CallItemCount c = c"
| "cache_after CallStats c = c"
| "cache_after (CallDeleteExpired now ks) c = DeleteExpired now ks c"
| "cache_after (CallFlush ks) c = c"

fun removes :: "'v CacheCall \<Rightarrow> 'v Cache \<Rightarrow> string \<Rightarrow> bool" where
  "removes (CallSet now ks key val d) c k =
     (maxItems c \<le> int (len_items c) \<and> k \<noteq> key \<and> k \<noteq> '''' \<and>
      k = fst (evictOldest_scan (items c) ks ('''', MaxInt64)))"
| "removes (CallDelete key) c k = (k = key)"
| "removes CallClear c k = True"
| "removes (CallDeleteExpired now ks) c k = (k \<in> set ks \<and> expired_key now (items c) k)"
| "removes (CallGet now key) c k = False"
| "removes (CallGetWithExpiration now key) c k = False"
| "removes (CallItems now) c k = False"
| "removes CallItemCount c k = False"
| "removes CallStats c k = False"
| "removes (CallFlush ks) c k = False"

section \<open>The event bus (pkg/nodeprop/event.go)\<close>

text \<open>
  \<open>EventType\<close> is a string type with six named values. The payload of an event,
  \<open>interface{}\<close> in the source, is a type parameter.
\<close>

type_synonym EventType = string

abbreviation EventTypeNodeProp :: EventType where "EventTypeNodeProp \<equiv> ''nodeprop''"
abbreviation EventTypeWorkflow :: EventType where "EventTypeWorkflow \<equiv> ''workflow''"
abbreviation EventTypeSecret :: EventType where "EventTypeSecret \<equiv> ''secret''"
abbreviation EventTypeConfig :: EventType where "EventTypeConfig \<equiv> ''config''"
abbreviation EventTypeError :: EventType where "EventTypeError \<equiv> ''error''"
abbreviation EventTypeSystem :: EventType where "EventTypeSystem \<equiv> ''system''"

record 'd Event =
  ID :: string
  Type :: EventType
  Name :: string
  Data :: 'd
  Metadata :: "string \<rightharpoonup> 'd"
  Timestamp :: Time

type_synonym 'd EventHandler = "'d Event \<Rightarrow> error option"

type_synonym 'd EventMiddleware = "'d Event \<Rightarrow> 'd Event"

text \<open>
  A line written through the \<open>Logger\<close>: its level, the fields and the error attached
  with \<open>WithField\<close> and \<open>WithError\<close>, and the message.
\<close>

record LogEntry =
  log_level :: string
  log_fields :: "(string \<times> string) list"
  log_error :: "error option"
  log_message :: string

text \<open>
  The bus. The \<open>EventConsumer\<close> it holds is an interface value: its \<open>Consume\<close>
  method and the state of the object behind it, of a type \<open>'c\<close>. The logger is the list
  of the lines written so far.
\<close>

record ('d, 'c) EventBus =
  subscribers :: "EventType \<rightharpoonup> (string \<rightharpoonup> 'd EventHandler)"
  middleware :: "'d EventMiddleware list"
  consumer :: "'d Event \<Rightarrow> 'c \<Rightarrow> error option \<times> 'c"
  consumer_state :: 'c
  logger :: "LogEntry list"

record 'd EventSubscription =
  SubID :: string
  SubType :: EventType
  SubHandler :: "'d EventHandler"
  unsubFn :: "EventType \<times> string"

text \<open>
  \<open>NewEventBus(logger, consumer)\<close>; the caller passes the consumer (the source
  substitutes a local consumer for \<open>nil\<close>).
\<close>

definition NewEventBus ::
  "('d Event \<Rightarrow> 'c \<Rightarrow> error option \<times> 'c) \<Rightarrow> 'c \<Rightarrow> ('d, 'c) EventBus" where
  "NewEventBus consume st =
     \<lparr>subscribers = Map.empty, middleware = [], consumer = consume, consumer_state = st,
      logger = []\<rparr>"

text \<open>
  \<open>eb.subscribers[eventType]\<close>: a missing inner map reads as \<open>nil\<close>, which holds no
  handler.
\<close>

definition handlers_of :: "('d, 'c) EventBus \<Rightarrow> EventType \<Rightarrow> (string \<rightharpoonup> 'd EventHandler)" where
  "handlers_of eb eventType =
     (case subscribers eb eventType of None \<Rightarrow> Map.empty | Some hs \<Rightarrow> hs)"

text \<open>
  \<open>Subscribe\<close>. The identifier is the event type, a dash and the string of a new UUID;
  \<open>uuid.New()\<close> belongs to an external library, and the string it returns for this call
  is the argument \<open>uuid\<close>. The closure \<open>unsubFn\<close> is the pair it captures.
\<close>

definition Subscribe ::
  "string \<Rightarrow> EventType \<Rightarrow> 'd EventHandler \<Rightarrow> ('d, 'c) EventBus
     \<Rightarrow> 'd EventSubscription \<times> ('d, 'c) EventBus" where
  "Subscribe uuid eventType handler eb =
     (let hs = handlers_of eb eventType;
          sid = eventType @ ''-'' @ uuid
      in (\<lparr>SubID = sid, SubType = eventType, SubHandler = handler,
            unsubFn = (eventType, sid)\<rparr>,
          eb\<lparr>subscribers := (subscribers eb)(eventType \<mapsto> hs(sid \<mapsto> handler))\<rparr>))"

definition unsubscribe :: "EventType \<Rightarrow> string \<Rightarrow> ('d, 'c) EventBus \<Rightarrow> ('d, 'c) EventBus" where
  "unsubscribe eventType sid eb =
     (case subscribers eb eventType of
        None \<Rightarrow> eb
      | Some hs \<Rightarrow> eb\<lparr>subscribers := (subscribers eb)(eventType \<mapsto> hs(sid := None))\<rparr>)"

definition Unsubscribe :: "'d EventSubscription \<Rightarrow> ('d, 'c) EventBus \<Rightarrow> ('d, 'c) EventBus" where
  "Unsubscribe sub eb = unsubscribe (fst (unsubFn sub)) (snd (unsubFn sub)) eb"

definition AddMiddleware :: "'d EventMiddleware \<Rightarrow> ('d, 'c) EventBus \<Rightarrow> ('d, 'c) EventBus" where
  "AddMiddleware mw eb = eb\<lparr>middleware := middleware eb @ [mw]\<rparr>"

text \<open>\<open>for _, mw := range eb.middleware { event = mw(event) }\<close>.\<close>

definition apply_middleware :: "'d EventMiddleware list \<Rightarrow> 'd Event \<Rightarrow> 'd Event" where
  "apply_middleware mws event = foldl (\<lambda>e mw. mw e) event mws"

text \<open>
  The fan-out starts one goroutine for each handler of the map, visited in the order
  \<open>ks\<close>. A goroutine is recorded by the subscriber it serves, the handler it calls and
  the event it passes; \<open>run_invocation\<close> gives the lines it logs, which is an error line
  when the handler fails (in the form the second \<open>Publish\<close> below gives it).
  \<open>Publish\<close> does not wait for the goroutines.
\<close>

record 'd Invocation =
  subscriber :: string
  handler :: "'d EventHandler"
  delivered :: "'d Event"

fun fan_out ::
  "(string \<rightharpoonup> 'd EventHandler) \<Rightarrow> string list \<Rightarrow> 'd Event \<Rightarrow> 'd Invocation list" where
  "fan_out hs [] event = []"
| "fan_out hs (sid # ks) event =
     (case hs sid of
        None \<Rightarrow> fan_out hs ks event
      | Some h \<Rightarrow> \<lparr>subscriber = sid, handler = h, delivered = event\<rparr> # fan_out hs ks event)"

definition run_invocation :: "'d Invocation \<Rightarrow> LogEntry list" where
  "run_invocation g =
     (case handler g (delivered g) of
        None \<Rightarrow> []
      | Some err \<Rightarrow>
          [\<lparr>log_level = ''error'', log_fields = [(''subscriber'', subscriber g)],
            log_error = Some err, log_message = ''Failed to handle event''\<rparr>])"

text \<open>
  The first \<open>Publish\<close> of the file (lines 101 to 128): it sets a missing timestamp,
  applies the middleware and fans out. It does not call the consumer. Its goroutines log a
  failure with the type and the name of the event, the error printed after the message.
\<close>

definition run_invocation_first :: "'d Invocation \<Rightarrow> LogEntry list" where
  "run_invocation_first g =
     (case handler g (delivered g) of
        None \<Rightarrow> []
      | Some err \<Rightarrow>
          [\<lparr>log_level = ''error'',
            log_fields = [(''subscriber'', subscriber g), (''event_type'', Type (delivered g)),
                          (''event_name'', Name (delivered g))],
            log_error = None, log_message = ''Failed to handle event:'' @ Error err\<rparr>])"

definition Publish_first ::
  "int \<Rightarrow> string list \<Rightarrow> 'd Event \<Rightarrow> ('d, 'c) EventBus
     \<Rightarrow> 'd Invocation list \<times> ('d, 'c) EventBus" where
  "Publish_first now ks event eb =
     (let event0 = (if Timestamp event = None then event\<lparr>Timestamp := Some now\<rparr> else event);
          event1 = apply_middleware (middleware eb) event0;
          handlers = handlers_of eb (Type event1)
      in (fan_out handlers ks event1, eb))"

text \<open>
  The \<open>Publish\<close> that replaces it (``Updated Publish method'', lines 347 to 373): the
  middleware, then the consumer, whose error is logged, then the fan-out.
\<close>

definition Publish ::
  "string list \<Rightarrow> 'd Event \<Rightarrow> ('d, 'c) EventBus \<Rightarrow> 'd Invocation list \<times> ('d, 'c) EventBus" where
  "Publish ks event eb =
     (let event1 = apply_middleware (middleware eb) event;
          (r, st) = consumer eb event1 (consumer_state eb);
          eb1 = (case r of
                   Some err \<Rightarrow>
                     eb\<lparr>consumer_state := st,
                        logger := logger eb @
                          [\<lparr>log_level = ''error'', log_fields = [], log_error = Some err,
                            log_message = ''Failed to consume event''\<rparr>]\<rparr>
                 | None \<Rightarrow> eb\<lparr>consumer_state := st\<rparr>);
          handlers = handlers_of eb1 (Type event1)
      in (fan_out handlers ks event1, eb1))"

text \<open>
  \<open>RegistryEventConsumer.Consume\<close> with a context that is not cancelled: the event goes
  into the channel when there is room and is dropped with an error when the channel, of
  capacity \<open>cap\<close>, is full. The state is the content of the channel.
\<close>

definition RegistryEventConsumer_Consume ::
  "nat \<Rightarrow> 'd Event \<Rightarrow> 'd Event list \<Rightarrow> error option \<times> 'd Event list" where
  "RegistryEventConsumer_Consume cap event events =
     (if length events < cap then (None, events @ [event])
      else (Some (New ''event channel full''), events))"

subsection \<open>Sequences of calls on the bus\<close>

text \<open>
  \<open>Subscribe\<close> together with its call of \<open>uuid.New()\<close>: the state is that of the
  generator and the bus.
\<close>

definition Subscribe_uuid ::
  "EventType \<Rightarrow> 'd EventHandler \<Rightarrow> nat \<times> ('d, 'c) EventBus
     \<Rightarrow> 'd EventSubscription \<times> (nat \<times> ('d, 'c) EventBus)" where
  "Subscribe_uuid eventType h st =
     (let (uuid, n) = uuid_New (fst st);
          (sub, eb) = Subscribe uuid eventType h (snd st)
      in (sub, (n, eb)))"

text \<open>
  The calls a program makes that touch the bus or the generator; \<open>CallNewUUID\<close> is a
  call of \<open>uuid.New()\<close> anywhere else in the program. \<open>bus_calls\<close> runs a sequence of
  calls and collects the goroutines they start.
\<close>

datatype 'd BusCall =
    CallSubscribe EventType "'d EventHandler"
  | CallUnsubscribe "'d EventSubscription"
  | CallAddMiddleware "'d EventMiddleware"
  | CallPublish "string list" "'d Event"
  | CallNewUUID

fun bus_call ::
  "'d BusCall \<Rightarrow> nat \<times> ('d, 'c) EventBus
     \<Rightarrow> 'd Invocation list \<times> (nat \<times> ('d, 'c) EventBus)" where
  "bus_call (CallSubscribe eventType h) st = ([], snd (Subscribe_uuid eventType h st))"
| "bus_call (CallUnsubscribe sub) st = ([], (fst st, Unsubscribe sub (snd st)))"
| "bus_call (CallAddMiddleware mw) st = ([], (fst st, AddMiddleware mw (snd st)))"
| "bus_call (CallPublish ks event) st =
     (fst (Publish ks event (snd st)), (fst st, snd (Publish ks event (snd st))))"
| "bus_call CallNewUUID st = ([], (snd (uuid_New (fst st)), snd st))"

fun bus_calls ::
  "'d BusCall list \<Rightarrow> nat \<times> ('d, 'c) EventBus
     \<Rightarrow> 'd Invocation list \<times> (nat \<times> ('d, 'c) EventBus)" where
  "bus_calls [] st = ([], st)"
| "bus_calls (c # cs) st =
     (let (invs, st1) = bus_call c st;
          (invs', st2) = bus_calls cs st1
      in (invs @ invs', st2))"

text \<open>An invocation serves the subscription \<open>id\<close> of \<open>eventType\<close>.\<close>

definition serves :: "'d Invocation \<Rightarrow> EventType \<Rightarrow> string \<Rightarrow> bool" where
  "serves g eventType sid = (Type (delivered g) = eventType \<and> subscriber g = sid)"

text \<open>A consumer that keeps every event, and one that refuses every event.\<close>

definition keep_all :: "'d Event \<Rightarrow> 'd Event list \<Rightarrow> error option \<times> 'd Event list" where
  "keep_all = RegistryEventConsumer_Consume 1000"

definition refuse_all :: "'d Event \<Rightarrow> 'd Event list \<Rightarrow> error option \<times> 'd Event list" where
  "refuse_all = RegistryEventConsumer_Consume 0"

definition event_example :: "nat Event" where
  "event_example =
     \<lparr>ID = ''e1'', Type = EventTypeWorkflow, Name = ''WorkflowAdded'', Data = 7,
      Metadata = Map.empty, Timestamp = None\<rparr>"

text \<open>
  A bus with two subscribers to workflow events: one handler succeeds, the other fails.
\<close>

definition ok_handler :: "nat EventHandler" where
  "ok_handler = (\<lambda>e. None)"

definition failing_handler :: "nat EventHandler" where
  "failing_handler = (\<lambda>e. Some (New ''handler failed''))"

definition bus_example :: "(nat, nat Event list) EventBus" where
  "bus_example =
     snd (Subscribe ''u2'' EventTypeWorkflow failing_handler
       (snd (Subscribe ''u1'' EventTypeWorkflow ok_handler (NewEventBus keep_all []))))"

text \<open>
  The two subscribers again, their identifiers drawn from the generator in its first
  state.
\<close>

definition subscribed_example :: "nat \<times> (nat, nat Event list) EventBus" where
  "subscribed_example =
     snd (Subscribe_uuid EventTypeWorkflow failing_handler
       (snd (Subscribe_uuid EventTypeWorkflow ok_handler (0, NewEventBus keep_all []))))"

text \<open>Two middlewares: one gives every event the type system, one renames it.\<close>

definition retype_middleware :: "nat EventMiddleware" where
  "retype_middleware = (\<lambda>e. e\<lparr>Type := EventTypeSystem\<rparr>)"

definition rename_middleware :: "nat EventMiddleware" where
  "rename_middleware = (\<lambda>e. e\<lparr>Name := ''Renamed''\<rparr>)"

section \<open>The manager (pkg/nodeprop/manager.go, the implementation of CoreManager)\<close>

text \<open>
  The manager works through collaborators whose code is not part of the repository's
  sources: the validator, the template manager, the GitHub client, the store, the YAML
  encoder and the formatting of a time. Each is the function that gives its answer; an
  \<open>error option\<close> is the Go \<open>error\<close>, \<open>None\<close> for \<open>nil\<close>.
\<close>

record Collaborators =
  ValidateWorkflowArgs :: "WorkflowArguments \<Rightarrow> error option"
  ValidateSecretArgs :: "SecretArguments \<Rightarrow> error option"
  ValidateNodePropArgs :: "NodePropArguments \<Rightarrow> error option"
  ValidateNodeProp :: "NodePropFile \<Rightarrow> error option"
  ProcessTemplate :: "string \<Rightarrow> Variables \<Rightarrow> error + string"
  CreateWorkflow :: "string \<Rightarrow> string \<Rightarrow> string \<Rightarrow> error option"
  CreateSecret :: "string \<Rightarrow> string \<Rightarrow> string \<Rightarrow> string \<Rightarrow> error option"
  CreateFile :: "string \<Rightarrow> string \<Rightarrow> string \<Rightarrow> error option"
  StoreSet :: "string \<Rightarrow> Payload \<Rightarrow> error option"
  Marshal :: "NodePropFile \<Rightarrow> error + string"
  FormatRFC3339 :: "int \<Rightarrow> string"

text \<open>The calls made on the GitHub client and on the store, with their arguments.\<close>

datatype GitHubCall =
    CallCreateWorkflow string string string
  | CallCreateSecret string string string string
  | CallCreateFile string string string

text \<open>
  What an operation of the manager can change: the cache, the events handed to
  \<open>eventBus.Emit\<close>, the calls made on the GitHub client and on the store, and the lines
  logged. Lists are in the order of the calls.
\<close>

record Manager =
  cache :: "Payload Cache"
  emitted :: "Payload Event list"
  github_calls :: "GitHubCall list"
  store_calls :: "(string \<times> Payload) list"
  warnings :: "string list"

definition Emit :: "Payload Event \<Rightarrow> Manager \<Rightarrow> Manager" where
  "Emit event m = m\<lparr>emitted := emitted m @ [event]\<rparr>"

text \<open>
  \<open>Event{Type: t, Name: n, Data: d}\<close>: the fields that are not named have their zero
  values.
\<close>

definition Event_of :: "EventType \<Rightarrow> string \<Rightarrow> Payload \<Rightarrow> Payload Event" where
  "Event_of t n d =
     \<lparr>Event.ID = '''', Type = t, Event.Name = n, Data = d, Event.Metadata = Map.empty,
      Timestamp = None\<rparr>"

text \<open>
  \<open>AddWorkflow\<close>. The argument \<open>clock\<close> gives the successive readings of
  \<open>time.Now()\<close> during the call, as Unix nanoseconds.
\<close>

definition AddWorkflow ::
  "Collaborators \<Rightarrow> (nat \<Rightarrow> int) \<Rightarrow> WorkflowArguments \<Rightarrow> Manager \<Rightarrow> error option \<times> Manager" where
  "AddWorkflow env clock args m =
     (case ValidateWorkflowArgs env args of
        Some err \<Rightarrow> (Some (Errorf ''invalid workflow arguments: '' err), m)
      | None \<Rightarrow>
          (case (if WorkflowArguments.Template args \<noteq> ''''
                 then ProcessTemplate env (WorkflowArguments.Template args)
                        (WorkflowArguments.Variables args)
                 else Inr (WorkflowArguments.Content args)) of
             Inl err \<Rightarrow> (Some (Errorf ''failed to process template: '' err), m)
           | Inr content \<Rightarrow>
               (let m1 = m\<lparr>github_calls := github_calls m @
                            [CallCreateWorkflow (WorkflowArguments.Repository args)
                               (WorkflowArguments.Name args) content]\<rparr>
                in case CreateWorkflow env (WorkflowArguments.Repository args)
                          (WorkflowArguments.Name args) content of
                     Some err \<Rightarrow> (Some (Errorf ''failed to create workflow: '' err), m1)
                   | None \<Rightarrow>
                       (let cacheKey = ''workflows:'' @ WorkflowArguments.Repository args;
                            m2 = m1\<lparr>cache := Delete cacheKey (cache m1)\<rparr>
                        in (None,
                            Emit (Event_of EventTypeWorkflow ''WorkflowAdded''
                                    (OfWorkflow
                                       \<lparr>Workflow.ID = '''',
                                        Workflow.Name = WorkflowArguments.Name args,
                                        Path = '''',
                                        Workflow.Content = content,
                                        Workflow.Created = None,
                                        Workflow.Updated = Some (clock 0),
                                        Workflow.Status = ''active''\<rparr>))
                              m2)))))"

text \<open>
  \<open>AddSecret\<close>. A failure of the store is logged as a warning and the operation goes
  on.
\<close>

definition AddSecret ::
  "Collaborators \<Rightarrow> (nat \<Rightarrow> int) \<Rightarrow> SecretArguments \<Rightarrow> Manager \<Rightarrow> error option \<times> Manager" where
  "AddSecret env clock args m =
     (case ValidateSecretArgs env args of
        Some err \<Rightarrow> (Some (Errorf ''invalid secret arguments: '' err), m)
      | None \<Rightarrow>
          (let m1 = m\<lparr>github_calls := github_calls m @
                       [CallCreateSecret (SecretArguments.Repository args)
                          (SecretArguments.Name args) (SecretArguments.Value args)
                          (SecretArguments.Visibility args)]\<rparr>
           in case CreateSecret env (SecretArguments.Repository args)
                     (SecretArguments.Name args) (SecretArguments.Value args)
                     (SecretArguments.Visibility args) of
                Some err \<Rightarrow> (Some (Errorf ''failed to create secret: '' err), m1)
              | None \<Rightarrow>
                  (let cacheKey = ''secrets:'' @ SecretArguments.Repository args;
                       m2 = m1\<lparr>cache := Delete cacheKey (cache m1)\<rparr>;
                       secretRef =
                         \<lparr>SecretReference.Name = SecretArguments.Name args,
                          SecretReference.Repository = SecretArguments.Repository args,
                          SecretReference.Created = Some (clock 0),
                          SecretReference.Updated = Some (clock 1),
                          SecretReference.Visibility = SecretArguments.Visibility args\<rparr>;
                       storeKey = ''secret_refs:'' @ SecretArguments.Repository args @ '':''
                                    @ SecretArguments.Name args;
                       m3 = m2\<lparr>store_calls := store_calls m2 @
                                   [(storeKey, OfSecretReference secretRef)]\<rparr>;
                       m4 = (case StoreSet env storeKey (OfSecretReference secretRef) of
                               Some err \<Rightarrow>
                                 m3\<lparr>warnings := warnings m3 @
                                      [''Failed to store secret reference locally'']\<rparr>
                             | None \<Rightarrow> m3)
                   in (None,
                       Emit (Event_of EventTypeSecret ''SecretAdded''
                               (OfSecret
                                  \<lparr>Secret.Name = SecretArguments.Name args,
                                   Secret.Created = Some (clock 2),
                                   Secret.Updated = Some (clock 3),
                                   Secret.Visibility = SecretArguments.Visibility args\<rparr>))
                         m4))))"

text \<open>
  The descriptor that \<open>GenerateNodeProp\<close> builds. \<open>uuid.New()\<close> belongs to an external
  library: the string it returns for this call is the argument \<open>uuid\<close>. The fields that
  the source does not name have their zero values.
\<close>

definition zero_GitHub :: GitHub where
  "zero_GitHub =
     \<lparr>Stars = 0, Forks = 0, Issues = 0, PullRequests = \<lparr>Open = 0, Closed = 0\<rparr>,
      LatestCommit = '''', License = '''', Topics = []\<rparr>"

definition zero_Docker :: Docker where
  "zero_Docker =
     \<lparr>Dockerfile =
        \<lparr>ExposedPorts = [], DockerfileInfo.EnvVars = [], Cmd = '''', Entrypoint = '''',
         DockerfileInfo.Volumes = []\<rparr>,
      DockerCompose =
        \<lparr>Services = [], DockerCompose.Ports = Map.empty, DockerCompose.Volumes = Map.empty,
         DockerCompose.EnvVars = Map.empty, Command = Map.empty\<rparr>\<rparr>"

definition new_NodePropFile ::
  "Collaborators \<Rightarrow> int \<Rightarrow> string \<Rightarrow> NodePropArguments \<Rightarrow> NodePropFile" where
  "new_NodePropFile env now uuid args =
     \<lparr>NodePropFile.ID = uuid,
      NodePropFile.Name = RepoName args,
      Address = ''https://github.com/Cdaprod/'' @ RepoName args,
      Capabilities = [],
      NodePropFile.Status = ''active'',
      Metadata =
        \<lparr>Description = '''', Owner = ''Cdaprod'', LastUpdated = FormatRFC3339 env now,
         Tags = [], GitHub = zero_GitHub, Docker = zero_Docker\<rparr>,
      CustomProperties =
        \<lparr>DeployEnvironment = '''', MonitoringEnabled = False, AutoScale = False,
         Service = '''', App = '''', Image = '''', CustomProperties.Ports = [],
         CustomProperties.Volumes = [], Network = '''',
         Domain = NodePropArguments.Domain args\<rparr>\<rparr>"

text \<open>
  \<open>GenerateNodeProp\<close>. \<open>ks\<close> is the order in which the cache would visit its entries
  if \<open>Set\<close> has to evict; the cache reads the clock again for the expiry.
\<close>

definition GenerateNodeProp ::
  "Collaborators \<Rightarrow> (nat \<Rightarrow> int) \<Rightarrow> string \<Rightarrow> string list \<Rightarrow> NodePropArguments \<Rightarrow> Manager
     \<Rightarrow> error option \<times> Manager" where
  "GenerateNodeProp env clock uuid ks args m =
     (case ValidateNodePropArgs env args of
        Some err \<Rightarrow> (Some (Errorf ''invalid nodeprop arguments: '' err), m)
      | None \<Rightarrow>
          (let nodeProp = new_NodePropFile env (clock 0) uuid args
           in case ValidateNodeProp env nodeProp of
                Some err \<Rightarrow> (Some (Errorf ''invalid nodeprop configuration: '' err), m)
              | None \<Rightarrow>
                  (case Marshal env nodeProp of
                     Inl err \<Rightarrow> (Some (Errorf ''failed to marshal nodeprop: '' err), m)
                   | Inr data \<Rightarrow>
                       (let m1 = m\<lparr>github_calls := github_calls m @
                                    [CallCreateFile (RepoPath args) ''.nodeprop.yml'' data]\<rparr>
                        in case CreateFile env (RepoPath args) ''.nodeprop.yml'' data of
                             Some err \<Rightarrow>
                               (Some (Errorf ''failed to create nodeprop file: '' err), m1)
                           | None \<Rightarrow>
                               (let cacheKey = ''nodeprop:'' @ RepoPath args;
                                    m2 = m1\<lparr>cache := Set (clock 1) ks cacheKey
                                                   (OfNodePropFile nodeProp) 3600000000000
                                                   (cache m1)\<rparr>
                                in (None,
                                    Emit (Event_of EventTypeNodeProp ''NodePropGenerated''
                                            (OfNodePropFile nodeProp))
                                      m2))))))"

subsection \<open>Collaborators and a manager to run the operations on\<close>

text \<open>
  A validator that asks for a repository, a secret name and a repository name, and for an
  identifier and a name in a descriptor; the other collaborators succeed, except that the
  GitHub client fails with the error \<open>github\<close> when one is given.
\<close>

definition required :: "string \<Rightarrow> string \<Rightarrow> error option" where
  "required field s = (if s = '''' then Some (New (field @ '' is required'')) else None)"

definition collaborators_example :: "error option \<Rightarrow> Collaborators" where
  "collaborators_example github =
     \<lparr>ValidateWorkflowArgs = (\<lambda>a. required ''repository'' (WorkflowArguments.Repository a)),
      ValidateSecretArgs = (\<lambda>a. required ''repository'' (SecretArguments.Repository a)),
      ValidateNodePropArgs = (\<lambda>a. required ''repository name'' (RepoName a)),
      ValidateNodeProp = (\<lambda>f. required ''name'' (NodePropFile.Name f)),
      ProcessTemplate = (\<lambda>t vs. Inr t),
      CreateWorkflow = (\<lambda>repo name content. github),
      CreateSecret = (\<lambda>repo name val visibility. github),
      CreateFile = (\<lambda>repo path data. github),
      StoreSet = (\<lambda>key val. None),
      Marshal = (\<lambda>f. Inr (''id: '' @ NodePropFile.ID f @ '' name: '' @ NodePropFile.Name f)),
      FormatRFC3339 = (\<lambda>t. ''2024-01-01T00:00:00Z'')\<rparr>"

definition manager_example :: Manager where
  "manager_example =
     \<lparr>cache = NewCache [], emitted = [], github_calls = [], store_calls = [], warnings = []\<rparr>"

definition workflow_args_example :: "string \<Rightarrow> WorkflowArguments" where
  "workflow_args_example repo =
     \<lparr>WorkflowArguments.Repository = repo, WorkflowArguments.Name = ''ci'',
      WorkflowArguments.Content = ''name: CI'', Template = '''',
      WorkflowArguments.Variables = Map.empty, Reference = ''''\<rparr>"

definition secret_args_example :: "string \<Rightarrow> SecretArguments" where
  "secret_args_example repo =
     \<lparr>SecretArguments.Repository = repo, SecretArguments.Name = ''TOKEN'',
      SecretArguments.Value = ''s3cret'', SecretArguments.Visibility = ''private''\<rparr>"

definition nodeprop_args_example :: "string \<Rightarrow> NodePropArguments" where
  "nodeprop_args_example name =
     \<lparr>RepoPath = ''owner/svc'', RepoName = name, NodePropArguments.Domain = ''example.com'',
      Config = '''', NodePropArguments.Variables = Map.empty\<rparr>"

subsection \<open>Sequences of calls on the manager\<close>

text \<open>
  \<open>GenerateNodeProp\<close> together with its call of \<open>uuid.New()\<close>, which it makes once
  the arguments are valid: the state is that of the generator and the manager.
\<close>

definition GenerateNodeProp_uuid ::
  "Collaborators \<Rightarrow> (nat \<Rightarrow> int) \<Rightarrow> string list \<Rightarrow> NodePropArguments \<Rightarrow> nat \<times> Manager
     \<Rightarrow> error option \<times> (nat \<times> Manager)" where
  "GenerateNodeProp_uuid env clock ks args st =
     (let (uuid, n) = uuid_New (fst st);
          (r, m) = GenerateNodeProp env clock uuid ks args (snd st)
      in (r, (if ValidateNodePropArgs env args = None then n else fst st, m)))"

text \<open>
  The calls a program makes on the manager, each with the collaborators and the clock of
  that call; \<open>DoNewUUID\<close> is a call of \<open>uuid.New()\<close> anywhere else in the program.
\<close>

datatype ManagerCall =
    DoAddWorkflow Collaborators "nat \<Rightarrow> int" WorkflowArguments
  | DoAddSecret Collaborators "nat \<Rightarrow> int" SecretArguments
  | DoGenerateNodeProp Collaborators "nat \<Rightarrow> int" "string list" NodePropArguments
  | DoNewUUID

fun manager_call :: "ManagerCall \<Rightarrow> nat \<times> Manager \<Rightarrow> nat \<times> Manager" where
  "manager_call (DoAddWorkflow env clock args) st =
     (fst st, snd (AddWorkflow env clock args (snd st)))"
| "manager_call (DoAddSecret env clock args) st =
     (fst st, snd (AddSecret env clock args (snd st)))"
| "manager_call (DoGenerateNodeProp env clock ks args) st =
     snd (GenerateNodeProp_uuid env clock ks args st)"
| "manager_call DoNewUUID st = (snd (uuid_New (fst st)), snd st)"

fun manager_calls :: "ManagerCall list \<Rightarrow> nat \<times> Manager \<Rightarrow> nat \<times> Manager" where
  "manager_calls [] st = st"
| "manager_calls (c # cs) st = manager_calls cs (manager_call c st)"

text \<open>The identifiers of the descriptors that a list of events carries.\<close>

fun generated_ids :: "Payload Event list \<Rightarrow> string list" where
  "generated_ids [] = []"
| "generated_ids (e # es) =
     (case Data e of
        OfNodePropFile f \<Rightarrow> NodePropFile.ID f # generated_ids es
      | _ \<Rightarrow> generated_ids es)"

text \<open>
  The generator and the manager after a workflow has been added and one descriptor
  generated.
\<close>

definition generated_example :: "nat \<times> Manager" where
  "generated_example =
     manager_calls
       [DoAddWorkflow (collaborators_example None) (\<lambda>n. 100)
          (workflow_args_example ''owner/repo''),
        DoGenerateNodeProp (collaborators_example None) (\<lambda>n. 100) []
          (nodeprop_args_example ''svc'')]
       (0, manager_example)"

section \<open>Properties of the cache\<close>

subsection \<open>The scan of evictOldest\<close>

lemma scan_le: "snd (evictOldest_scan m ks (ok, ot)) \<le> ot"
proof (induction ks arbitrary: ok ot)
  case Nil
  then show ?case by simp
next
  case (Cons a ks)
  show ?case
  proof (cases "m a")
    case None
    then show ?thesis using Cons [of ok ot] by simp
  next
    case (Some v)
    then show ?thesis
      using Cons [of ok ot] Cons [of a "Expiration v"] by auto
  qed
qed

lemma scan_lower:
  "k \<in> set ks \<Longrightarrow> m k = Some v \<Longrightarrow> snd (evictOldest_scan m ks (ok, ot)) \<le> Expiration v"
proof (induction ks arbitrary: ok ot)
  case Nil
  then show ?case by simp
next
  case (Cons a ks)
  show ?case
  proof (cases "a = k")
    case True
    then show ?thesis
      using Cons.prems scan_le [of m ks k "Expiration v"] scan_le [of m ks ok ot]
      by (auto split: option.splits)
  next
    case False
    then show ?thesis
      using Cons by (auto split: option.splits)
  qed
qed

lemma scan_unchanged:
  "snd (evictOldest_scan m ks (ok, ot)) = ot \<Longrightarrow> fst (evictOldest_scan m ks (ok, ot)) = ok"
proof (induction ks arbitrary: ok ot)
  case Nil
  then show ?case by simp
next
  case (Cons a ks)
  show ?case
  proof (cases "m a")
    case None
    then show ?thesis using Cons by simp
  next
    case (Some v)
    show ?thesis
    proof (cases "Expiration v < ot")
      case True
      then show ?thesis
        using Cons.prems Some scan_le [of m ks a "Expiration v"] by simp
    next
      case False
      then show ?thesis using Cons Some by simp
    qed
  qed
qed

lemma scan_changed:
  "snd (evictOldest_scan m ks (ok, ot)) < ot \<Longrightarrow>
   fst (evictOldest_scan m ks (ok, ot)) \<in> set ks \<and>
   (\<exists>v. m (fst (evictOldest_scan m ks (ok, ot))) = Some v \<and>
        Expiration v = snd (evictOldest_scan m ks (ok, ot)))"
proof (induction ks arbitrary: ok ot)
  case Nil
  then show ?case by simp
next
  case (Cons a ks)
  show ?case
  proof (cases "m a")
    case None
    then show ?thesis using Cons by simp
  next
    case (Some v)
    show ?thesis
    proof (cases "Expiration v < ot")
      case True
      let ?r = "evictOldest_scan m ks (a, Expiration v)"
      have le: "snd ?r \<le> Expiration v" by (rule scan_le)
      show ?thesis
      proof (cases "snd ?r < Expiration v")
        case True
        then show ?thesis using Cons.IH [of a "Expiration v"] Some \<open>Expiration v < ot\<close> by simp
      next
        case False
        then have eq: "snd ?r = Expiration v" using le by simp
        then have "fst ?r = a" by (rule scan_unchanged)
        then show ?thesis using eq Some \<open>Expiration v < ot\<close> by simp
      qed
    next
      case False
      then show ?thesis using Cons Some by simp
    qed
  qed
qed

lemma scan_find:
  "snd (evictOldest_scan m ks (ok, ot)) < ot \<Longrightarrow>
   List.find (expires_at m (snd (evictOldest_scan m ks (ok, ot)))) ks
   = Some (fst (evictOldest_scan m ks (ok, ot)))"
proof (induction ks arbitrary: ok ot)
  case Nil
  then show ?case by (simp add: expires_at_def)
next
  case (Cons a ks)
  show ?case
  proof (cases "m a")
    case None
    then show ?thesis using Cons by (simp add: expires_at_def)
  next
    case (Some v)
    show ?thesis
    proof (cases "Expiration v < ot")
      case True
      let ?r = "evictOldest_scan m ks (a, Expiration v)"
      have le: "snd ?r \<le> Expiration v" by (rule scan_le)
      show ?thesis
      proof (cases "snd ?r < Expiration v")
        case True
        then show ?thesis using Cons.IH [of a "Expiration v"] Some \<open>Expiration v < ot\<close> by (simp add: expires_at_def)
      next
        case False
        then have eq: "snd ?r = Expiration v" using le by (simp add: expires_at_def)
        then have "fst ?r = a" by (rule scan_unchanged)
        then show ?thesis using eq Some \<open>Expiration v < ot\<close> by (simp add: expires_at_def)
      qed
    next
      case False
      then have "snd (evictOldest_scan m ks (ok, ot)) < Expiration v"
        using Cons.prems Some by (simp add: expires_at_def)
      then show ?thesis using Cons False Some by (simp add: expires_at_def)
    qed
  qed
qed

subsection \<open>The sweep\<close>

lemma loop_items:
  "items (DeleteExpired_loop now ks c) k =
     (if k \<in> set ks \<and> expired_key now (items c) k then None else items c k)"
proof (induction ks arbitrary: c)
  case Nil
  then show ?case by simp
next
  case (Cons a ks)
  show ?case
  proof (cases "items c a")
    case None
    then show ?thesis using Cons [of c] by (auto simp: expired_key_def)
  next
    case (Some v)
    show ?thesis
    proof (cases "Expiration v > 0 \<and> now > Expiration v")
      case True
      then show ?thesis
        using Some Cons [of "c\<lparr>items := (items c)(a := None),
                    stats := (stats c)\<lparr>Evictions := Evictions (stats c) + 1\<rparr>\<rparr>"]
        by (auto simp: expired_key_def has_passed_def)
    next
      case False
      then show ?thesis using Some Cons [of c] by (auto simp: expired_key_def has_passed_def)
    qed
  qed
qed

lemma filter_expired_upd:
  "a \<notin> set ks \<Longrightarrow> filter (expired_key now (m(a := x))) ks = filter (expired_key now m) ks"
  by (rule filter_cong) (auto simp: expired_key_def)

lemma loop_evictions:
  "distinct ks \<Longrightarrow>
   Evictions (stats (DeleteExpired_loop now ks c)) =
     Evictions (stats c) + of_nat (length (filter (expired_key now (items c)) ks))"
proof (induction ks arbitrary: c)
  case Nil
  then show ?case by simp
next
  case (Cons a ks)
  then have d: "distinct ks" and na: "a \<notin> set ks" by simp_all
  show ?case
  proof (cases "items c a")
    case None
    then show ?thesis using Cons.IH [OF d, of c] by (simp add: expired_key_def)
  next
    case (Some v)
    show ?thesis
    proof (cases "Expiration v > 0 \<and> now > Expiration v")
      case True
      let ?c = "c\<lparr>items := (items c)(a := None),
                    stats := (stats c)\<lparr>Evictions := Evictions (stats c) + 1\<rparr>\<rparr>"
      have "expired_key now (items c) a" using True Some by (simp add: expired_key_def has_passed_def)
      moreover have "DeleteExpired_loop now (a # ks) c = DeleteExpired_loop now ks ?c"
        using True Some by simp
      moreover have "filter (expired_key now (items ?c)) ks = filter (expired_key now (items c)) ks"
        using filter_expired_upd [OF na, of now "items c" None] by simp
      moreover have "Evictions (stats ?c) = Evictions (stats c) + 1" by simp
      ultimately show ?thesis
        using Cons.IH [OF d, of ?c] by (simp only: filter.simps if_True list.size of_nat_Suc) simp
    next
      case False
      then have "\<not> expired_key now (items c) a" using Some by (simp add: expired_key_def has_passed_def)
      moreover have "DeleteExpired_loop now (a # ks) c = DeleteExpired_loop now ks c"
        using False Some by auto
      ultimately show ?thesis
        using Cons.IH [OF d, of c] by simp
    qed
  qed
qed

lemma loop_frame:
  "maxItems (DeleteExpired_loop now ks c) = maxItems c \<and>
   defaultExpiration (DeleteExpired_loop now ks c) = defaultExpiration c \<and>
   cleanupInterval (DeleteExpired_loop now ks c) = cleanupInterval c \<and>
   Hits (stats (DeleteExpired_loop now ks c)) = Hits (stats c) \<and>
   Misses (stats (DeleteExpired_loop now ks c)) = Misses (stats c)"
  by (induction ks arbitrary: c) (auto split: option.splits)

lemma range_order_expired_card:
  "range_order m ks \<Longrightarrow>
   card {k. expired_key now m k} = length (filter (expired_key now m) ks)"
proof -
  assume r: "range_order m ks"
  then have "set (filter (expired_key now m) ks) = {k. expired_key now m k}"
    by (auto simp: range_order_def expired_key_def split: option.splits)
  moreover have "distinct (filter (expired_key now m) ks)"
    using r by (simp add: range_order_def)
  ultimately show ?thesis using distinct_card by metis
qed

lemma DeleteExpired_items:
  "range_order (items c) ks \<Longrightarrow>
   items (DeleteExpired now ks c) k = (if expired_key now (items c) k then None else items c k)"
  by (auto simp: DeleteExpired_def Let_def loop_items range_order_def expired_key_def
      split: option.splits)

lemma DeleteExpired_evictions:
  "range_order (items c) ks \<Longrightarrow>
   Evictions (stats (DeleteExpired now ks c)) =
     Evictions (stats c) + of_nat (card {k. expired_key now (items c) k})"
  by (simp add: DeleteExpired_def Let_def loop_evictions range_order_expired_card range_order_def)

lemma DeleteExpired_keeps_no_expiry:
  "items c k = Some v \<Longrightarrow> Expiration v = 0 \<Longrightarrow> items (DeleteExpired now ks c) k = Some v"
  by (simp add: DeleteExpired_def Let_def loop_items expired_key_def has_passed_def)

lemma Set_stores:
  "items (Set now ks key val d c) key =
     Some \<lparr>Value = val,
           Expiration = (if (if d = 0 then defaultExpiration c else d) > 0
                         then UnixNano_Add now (if d = 0 then defaultExpiration c else d) else 0)\<rparr>"
  by (simp add: Set_def Let_def)

lemma Set_zero_default: "Set now ks key val 0 c = Set now ks key val (defaultExpiration c) c"
  by (simp add: Set_def Let_def)

lemma UnixNano_Add_in_range:
  "0 \<le> t0 \<Longrightarrow> 0 < d \<Longrightarrow> t0 + d \<le> MaxInt64 \<Longrightarrow> UnixNano_Add t0 d = t0 + d"
  unfolding UnixNano_Add_def MaxInt64_def
  by (rule signed_take_bit_int_eq_self) simp_all

subsection \<open>Reading an entry that has a time to live\<close>

text \<open>
  Claim C4, as the code has it. An entry stored by \<open>Set\<close> at time \<open>t0\<close> with a
  positive time to live \<open>d\<close> (the clock not before the Unix epoch, the expiry
  representable in 64 bits) has \<open>Expiration = t0 + d\<close>. A \<open>Get\<close> at a time strictly
  after the expiry returns not-found and counts a miss; a \<open>Get\<close> at a time before or
  equal to the expiry returns the stored value and counts a hit. In both cases \<open>Get\<close>
  leaves the entries as they are: the check is made on the read alone.
\<close>

theorem Get_after_Set_ttl:
  "0 < d \<Longrightarrow> 0 \<le> t0 \<Longrightarrow> t0 + d \<le> MaxInt64 \<Longrightarrow>
   items (Set t0 ks key val d c) key = Some \<lparr>Value = val, Expiration = t0 + d\<rparr> \<and>
   (t0 + d < t \<longrightarrow>
      Get t key (Set t0 ks key val d c) =
        (None, (Set t0 ks key val d c)
                 \<lparr>stats := (stats (Set t0 ks key val d c))
                    \<lparr>Misses := Misses (stats (Set t0 ks key val d c)) + 1\<rparr>\<rparr>)) \<and>
   (t \<le> t0 + d \<longrightarrow>
      Get t key (Set t0 ks key val d c) =
        (Some val, (Set t0 ks key val d c)
                 \<lparr>stats := (stats (Set t0 ks key val d c))
                    \<lparr>Hits := Hits (stats (Set t0 ks key val d c)) + 1\<rparr>\<rparr>))"
proof -
  assume d: "0 < d" and t0: "0 \<le> t0" and r: "t0 + d \<le> MaxInt64"
  have e: "UnixNano_Add t0 d = t0 + d" using t0 d r by (rule UnixNano_Add_in_range)
  have st: "items (Set t0 ks key val d c) key = Some \<lparr>Value = val, Expiration = t0 + d\<rparr>"
    using d e by (simp add: Set_stores)
  have pos: "0 < t0 + d" using d t0 by simp
  show ?thesis using st pos by (simp add: Get_def)
qed

text \<open>
  The claim as the specification states it puts the instant of expiry on the not-found
  side. The code does not: an entry stored at time 100 for 50 nanoseconds expires at 150,
  and a \<open>Get\<close> at 150 still returns it.
\<close>

theorem Get_at_expiry_counterexample:
  "Expiration (the (items (Set 100 [] ''k'' (7::nat) 50 (NewCache [])) ''k'')) = 150 \<and>
   fst (Get 150 ''k'' (Set 100 [] ''k'' (7::nat) 50 (NewCache []))) = Some 7"
  by (simp add: Get_def Set_def NewCache_def len_items_def UnixNano_Add_def Let_def)

text \<open>
  \<open>Items\<close> draws the line on the other side: at the instant of expiry it no longer
  lists the entry that \<open>Get\<close> still returns.
\<close>

lemma Items_at_expiry:
  "Items 150 (Set 100 [] ''k'' (7::nat) 50 (NewCache [])) ''k'' = None"
  by (simp add: Items_def Set_def NewCache_def len_items_def UnixNano_Add_def Let_def)

theorem Get_after_Set_ttl_witness:
  "(0::int) < 50 \<and> (0::int) \<le> 100 \<and> (100::int) + 50 \<le> MaxInt64 \<and>
   fst (Get 151 ''k'' (Set 100 [] ''k'' (7::nat) 50 (NewCache []))) = None \<and>
   fst (Get 150 ''k'' (Set 100 [] ''k'' (7::nat) 50 (NewCache []))) = Some 7"
  using Get_after_Set_ttl [of 50 100 "[]" "''k''" "7::nat" "NewCache []" 151]
        Get_after_Set_ttl [of 50 100 "[]" "''k''" "7::nat" "NewCache []" 150]
  by (simp add: MaxInt64_def)

subsection \<open>The sweep removes exactly the expired entries\<close>

text \<open>
  Claim C7. For every cache and every time \<open>now\<close>, \<open>DeleteExpired\<close> removes exactly
  the entries whose expiration is set and has passed and keeps every other entry; the
  eviction counter grows by the number of entries removed. An entry stored with a negative
  time to live has no expiration and no later \<open>DeleteExpired\<close> removes it. A time to
  live of 0 stands for the configured default duration.
\<close>

theorem DeleteExpired_removes_exactly_expired:
  "range_order (items c) ks \<Longrightarrow>
   (\<forall>k. items (DeleteExpired now ks c) k =
          (if expired_key now (items c) k then None else items c k)) \<and>
   Evictions (stats (DeleteExpired now ks c)) =
     Evictions (stats c) + of_nat (card {k. expired_key now (items c) k}) \<and>
   (d < 0 \<longrightarrow>
      items (Set t0 ks0 key val d c0) key = Some \<lparr>Value = val, Expiration = 0\<rparr> \<and>
      items (DeleteExpired now' ks' (Set t0 ks0 key val d c0)) key =
        Some \<lparr>Value = val, Expiration = 0\<rparr>) \<and>
   Set t0 ks0 key val 0 c0 = Set t0 ks0 key val (defaultExpiration c0) c0"
proof -
  assume r: "range_order (items c) ks"
  have a: "\<forall>k. items (DeleteExpired now ks c) k =
          (if expired_key now (items c) k then None else items c k)"
    using r by (simp add: DeleteExpired_items)
  have b: "Evictions (stats (DeleteExpired now ks c)) =
     Evictions (stats c) + of_nat (card {k. expired_key now (items c) k})"
    using r by (rule DeleteExpired_evictions)
  have c: "d < 0 \<longrightarrow>
      items (Set t0 ks0 key val d c0) key = Some \<lparr>Value = val, Expiration = 0\<rparr> \<and>
      items (DeleteExpired now' ks' (Set t0 ks0 key val d c0)) key =
        Some \<lparr>Value = val, Expiration = 0\<rparr>"
  proof
    assume neg: "d < 0"
    then have s: "items (Set t0 ks0 key val d c0) key = Some \<lparr>Value = val, Expiration = 0\<rparr>"
      by (simp add: Set_stores)
    then show "items (Set t0 ks0 key val d c0) key = Some \<lparr>Value = val, Expiration = 0\<rparr> \<and>
      items (DeleteExpired now' ks' (Set t0 ks0 key val d c0)) key =
        Some \<lparr>Value = val, Expiration = 0\<rparr>"
      by (simp add: DeleteExpired_keeps_no_expiry)
  qed
  show ?thesis by (intro conjI a b c Set_zero_default)
qed

lemma sweep_example_items:
  "items sweep_example =
     [''a'' \<mapsto> \<lparr>Value = 1, Expiration = 50\<rparr>,
      ''b'' \<mapsto> \<lparr>Value = 2, Expiration = 0\<rparr>,
      ''c'' \<mapsto> \<lparr>Value = 3, Expiration = 200\<rparr>]"
  by (simp add: sweep_example_def Set_def NewCache_def len_items_def UnixNano_Add_def Let_def)

theorem DeleteExpired_removes_exactly_expired_witness:
  "range_order (items sweep_example) [''c'', ''a'', ''b''] \<and> (- 1 :: int) < 0 \<and>
   items (DeleteExpired 100 [''c'', ''a'', ''b''] sweep_example) ''a'' = None \<and>
   items (DeleteExpired 100 [''c'', ''a'', ''b''] sweep_example) ''b'' =
     Some \<lparr>Value = 2, Expiration = 0\<rparr> \<and>
   items (DeleteExpired 100 [''c'', ''a'', ''b''] sweep_example) ''c'' =
     Some \<lparr>Value = 3, Expiration = 200\<rparr> \<and>
   items (DeleteExpired 100 [] (Set 10 [] ''n'' (5::nat) (- 1) (NewCache []))) ''n'' =
     Some \<lparr>Value = 5, Expiration = 0\<rparr>"
proof -
  have r: "range_order (items sweep_example) [''c'', ''a'', ''b'']"
    by (auto simp: range_order_def sweep_example_items)
  show ?thesis
    using r DeleteExpired_removes_exactly_expired
      [OF r, of 100 "- 1" 10 "[]" "''n''" "5::nat" "NewCache []" 100 "[]"]
    by (simp add: sweep_example_items expired_key_def has_passed_def)
qed

text \<open>
  On the example the sweep at time 100 removes the one entry that has expired; a second
  sweep finds nothing to remove and leaves the eviction counter where it was.
\<close>

lemma DeleteExpired_twice:
  "Evictions (stats (DeleteExpired 100 [''c'', ''a'', ''b''] sweep_example)) = 1 \<and>
   Size (stats (DeleteExpired 100 [''c'', ''a'', ''b''] sweep_example)) = 2 \<and>
   Evictions (stats (DeleteExpired 100 [''c'', ''b'']
     (DeleteExpired 100 [''c'', ''a'', ''b''] sweep_example))) = 1"
  by (simp add: DeleteExpired_def Let_def sweep_example_def Set_def NewCache_def len_items_def
      UnixNano_Add_def)

subsection \<open>Eviction when the cache is full\<close>

lemma evictOldest_victim:
  assumes r: "range_order m ks"
    and v: "victim = fst (evictOldest_scan m ks ('''', MaxInt64))"
    and ne: "victim \<noteq> ''''"
  shows "\<exists>v. m victim = Some v \<and>
           (\<forall>k w. m k = Some w \<longrightarrow> Expiration v \<le> Expiration w) \<and>
           List.find (expires_at m (Expiration v)) ks = Some victim"
proof -
  let ?r = "evictOldest_scan m ks ('''', MaxInt64)"
  have "snd ?r \<noteq> MaxInt64"
    using scan_unchanged [of m ks "''''" MaxInt64] v ne by auto
  then have lt: "snd ?r < MaxInt64"
    using scan_le [of m ks "''''" MaxInt64] by simp
  from scan_changed [OF lt] obtain x where x: "m victim = Some x" "Expiration x = snd ?r"
    using v by auto
  have low: "\<forall>k w. m k = Some w \<longrightarrow> Expiration x \<le> Expiration w"
  proof (intro allI impI)
    fix k w assume kw: "m k = Some w"
    then have "k \<in> set ks" using r by (auto simp: range_order_def)
    then show "Expiration x \<le> Expiration w"
      using scan_lower [of k ks m w "''''" MaxInt64] kw x by simp
  qed
  have "List.find (expires_at m (Expiration x)) ks = Some victim"
    using scan_find [OF lt] x v by simp
  then show ?thesis using x low by blast
qed

lemma evictOldest_removes:
  "fst (evictOldest_scan (items c) ks ('''', MaxInt64)) \<noteq> '''' \<Longrightarrow>
   evictOldest ks c =
     c\<lparr>items := (items c)(fst (evictOldest_scan (items c) ks ('''', MaxInt64)) := None),
       stats := (stats c)\<lparr>Evictions := Evictions (stats c) + 1\<rparr>\<rparr>"
  by (simp add: evictOldest_def Let_def)

lemma Set_evicts_min_expiration:
  "range_order (items c) ks \<Longrightarrow> maxItems c \<le> int (len_items c) \<Longrightarrow>
   victim = fst (evictOldest_scan (items c) ks ('''', MaxInt64)) \<Longrightarrow> victim \<noteq> '''' \<Longrightarrow>
   (\<exists>v. items c victim = Some v \<and>
        (\<forall>k w. items c k = Some w \<longrightarrow> Expiration v \<le> Expiration w) \<and>
        List.find (expires_at (items c) (Expiration v)) ks = Some victim) \<and>
   (\<exists>e. items (Set now ks key val d c) =
          ((items c)(victim := None))(key \<mapsto> \<lparr>Value = val, Expiration = e\<rparr>)) \<and>
   Evictions (stats (Set now ks key val d c)) = Evictions (stats c) + 1 \<and>
   len_items (Set now ks key val d c) \<le> len_items c \<and>
   Size (stats (Set now ks key val d c)) = of_nat (len_items (Set now ks key val d c))"
proof -
  assume r: "range_order (items c) ks" and cap: "maxItems c \<le> int (len_items c)"
    and v: "victim = fst (evictOldest_scan (items c) ks ('''', MaxInt64))"
    and ne: "victim \<noteq> ''''"
  have a: "\<exists>v. items c victim = Some v \<and>
        (\<forall>k w. items c k = Some w \<longrightarrow> Expiration v \<le> Expiration w) \<and>
        List.find (expires_at (items c) (Expiration v)) ks = Some victim"
    using r v ne by (rule evictOldest_victim)
  have ev: "evictOldest ks c =
     c\<lparr>items := (items c)(victim := None),
       stats := (stats c)\<lparr>Evictions := Evictions (stats c) + 1\<rparr>\<rparr>"
    using evictOldest_removes [of c ks] v ne by simp
  have b: "\<exists>e. items (Set now ks key val d c) =
          ((items c)(victim := None))(key \<mapsto> \<lparr>Value = val, Expiration = e\<rparr>)"
    using cap ev by (simp add: Set_def Let_def) blast
  have e: "Evictions (stats (Set now ks key val d c)) = Evictions (stats c) + 1"
    using cap ev by (simp add: Set_def Let_def)
  have fin: "finite (dom (items c))" using r by (auto simp: range_order_def intro: finite_subset)
  have vin: "victim \<in> dom (items c)" using a by auto
  have "dom (items (Set now ks key val d c)) = insert key (dom (items c) - {victim})"
  proof -
    from b obtain e where "items (Set now ks key val d c) =
          ((items c)(victim := None))(key \<mapsto> \<lparr>Value = val, Expiration = e\<rparr>)" ..
    then show ?thesis by (simp only: dom_fun_upd) simp
  qed
  then have "len_items (Set now ks key val d c) \<le> Suc (card (dom (items c) - {victim}))"
    using fin by (simp add: len_items_def card_insert_le_m1 card_insert_if)
  also have "\<dots> = len_items c"
    using card_Suc_Diff1 [OF fin vin] by (simp only: len_items_def)
  finally have l: "len_items (Set now ks key val d c) \<le> len_items c" .
  have s: "Size (stats (Set now ks key val d c)) = of_nat (len_items (Set now ks key val d c))"
    by (simp add: Set_def Let_def len_items_def)
  show ?thesis by (intro conjI a b e l s)
qed

text \<open>
  Claim C1, as the code has it. Let the cache hold at least \<open>maxItems\<close> entries, let
  \<open>ks\<close> be the order in which the loop of \<open>evictOldest\<close> visits them, and let the
  key the loop selects be non-empty (\<open>evictOldest\<close> deletes nothing otherwise). Then
  \<open>Set\<close> removes exactly that one entry before it inserts the new one. The entry removed
  has the numerically smallest \<open>Expiration\<close> field of all entries, where an entry that
  never expires carries 0 and so is taken before any entry that does expire; among entries
  with that smallest value it is the first in the order \<open>ks\<close>, which Go does not fix.
  The eviction counter grows by one, and the cache holds no more entries after the call
  than before it.
\<close>

theorem Set_at_capacity_evicts_min_expiration:
  "range_order (items c) ks \<Longrightarrow> maxItems c \<le> int (len_items c) \<Longrightarrow>
   victim = fst (evictOldest_scan (items c) ks ('''', MaxInt64)) \<Longrightarrow> victim \<noteq> '''' \<Longrightarrow>
   (\<exists>v. items c victim = Some v \<and>
        (\<forall>k w. items c k = Some w \<longrightarrow> Expiration v \<le> Expiration w) \<and>
        List.find (expires_at (items c) (Expiration v)) ks = Some victim) \<and>
   (\<exists>e. items (Set now ks key val d c) =
          ((items c)(victim := None))(key \<mapsto> \<lparr>Value = val, Expiration = e\<rparr>)) \<and>
   Evictions (stats (Set now ks key val d c)) = Evictions (stats c) + 1 \<and>
   len_items (Set now ks key val d c) \<le> len_items c \<and>
   Size (stats (Set now ks key val d c)) = of_nat (len_items (Set now ks key val d c))"
  by (rule Set_evicts_min_expiration)

lemma full_example_items:
  "items full_example =
     [''a'' \<mapsto> \<lparr>Value = 1, Expiration = 50\<rparr>,
      ''b'' \<mapsto> \<lparr>Value = 2, Expiration = 30\<rparr>,
      ''c'' \<mapsto> \<lparr>Value = 3, Expiration = 200\<rparr>]"
  by (simp add: full_example_def Set_def NewCache_def len_items_def UnixNano_Add_def Let_def)

lemma full_example_maxItems: "maxItems full_example = 3"
  by (simp add: full_example_def Set_def NewCache_def Let_def evictOldest_def)

lemma full_example_len: "len_items full_example = 3"
  by (simp add: len_items_def full_example_items)

lemma full_example_range: "range_order (items full_example) [''c'', ''a'', ''b'']"
  by (auto simp: range_order_def full_example_items)

lemma full_example_victim:
  "fst (evictOldest_scan (items full_example) [''c'', ''a'', ''b''] ('''', MaxInt64)) = ''b''"
  by (simp add: full_example_items MaxInt64_def)

theorem Set_at_capacity_evicts_min_expiration_witness:
  "range_order (items full_example) [''c'', ''a'', ''b''] \<and>
   maxItems full_example \<le> int (len_items full_example) \<and>
   fst (evictOldest_scan (items full_example) [''c'', ''a'', ''b''] ('''', MaxInt64)) = ''b'' \<and>
   items (Set 20 [''c'', ''a'', ''b''] ''d'' 4 100 full_example) ''b'' = None \<and>
   items (Set 20 [''c'', ''a'', ''b''] ''d'' 4 100 full_example) ''a'' =
     Some \<lparr>Value = 1, Expiration = 50\<rparr> \<and>
   Evictions (stats (Set 20 [''c'', ''a'', ''b''] ''d'' 4 100 full_example)) =
     Evictions (stats full_example) + 1 \<and>
   len_items (Set 20 [''c'', ''a'', ''b''] ''d'' 4 100 full_example) \<le> 3"
proof -
  have cap: "maxItems full_example \<le> int (len_items full_example)"
    by (simp add: full_example_maxItems full_example_len)
  have ne: "''b'' \<noteq> ''''" by simp
  show ?thesis
    using Set_at_capacity_evicts_min_expiration
      [OF full_example_range cap full_example_victim [symmetric] ne, of 20 "''d''" 4 100]
      full_example_range cap full_example_victim
    by (auto simp: full_example_items full_example_len)
qed

text \<open>
  The claim as the specification states it fails on three counts. With \<open>maxItems = 0\<close>
  the empty cache is at its maximum, nothing is evicted and the cache holds one entry
  afterwards. With two entries that tie, the victim is \<open>''a''\<close> under one iteration
  order and \<open>''b''\<close> under the other. With an entry that never expires and an entry
  that expires at 50, the one that never expires is evicted.
\<close>

theorem Set_at_capacity_counterexample:
  "maxItems (NewCache [WithMaxItems 0] :: nat Cache)
     \<le> int (len_items (NewCache [WithMaxItems 0] :: nat Cache)) \<and>
   Evictions (stats (Set 100 [] ''a'' (1::nat) 50 (NewCache [WithMaxItems 0]))) = 0 \<and>
   int (len_items (Set 100 [] ''a'' (1::nat) 50 (NewCache [WithMaxItems 0])))
     > maxItems (Set 100 [] ''a'' (1::nat) 50 (NewCache [WithMaxItems 0])) \<and>
   items (Set 20 [''a'', ''b''] ''c'' 3 50 tie_example) ''a'' = None \<and>
   items (Set 20 [''b'', ''a''] ''c'' 3 50 tie_example) ''a''
     = Some \<lparr>Value = 1, Expiration = 0\<rparr> \<and>
   items mixed_example ''b'' = Some \<lparr>Value = 2, Expiration = 50\<rparr> \<and>
   items (Set 20 [''a'', ''b''] ''c'' 3 50 mixed_example) ''a'' = None \<and>
   items (Set 20 [''a'', ''b''] ''c'' 3 50 mixed_example) ''b''
     = Some \<lparr>Value = 2, Expiration = 50\<rparr>"
  by (simp add: Set_def NewCache_def len_items_def UnixNano_Add_def Let_def evictOldest_def
      MaxInt64_def tie_example_def mixed_example_def)

text \<open>
  \<open>evictOldest\<close> takes the empty string for ``no entry found''. When the entry it
  selects has the empty string as its key, nothing is evicted and the cache grows beyond
  \<open>maxItems\<close>.
\<close>

lemma evictOldest_skips_empty_key:
  "maxItems empty_key_example = 2 \<and> len_items empty_key_example = 2 \<and>
   fst (evictOldest_scan (items empty_key_example) ['''', ''b''] ('''', MaxInt64)) = '''' \<and>
   Evictions (stats (Set 20 ['''', ''b''] ''c'' 3 50 empty_key_example)) = 0 \<and>
   len_items (Set 20 ['''', ''b''] ''c'' 3 50 empty_key_example) = 3"
  by (simp add: empty_key_example_def Set_def NewCache_def len_items_def UnixNano_Add_def
      Let_def evictOldest_def MaxInt64_def)

subsection \<open>What a read leaves in place\<close>

lemma Get_items: "items (snd (Get now key c)) = items c"
  by (simp add: Get_def split: option.splits)

lemma Get_miss:
  "fst (Get now key c) = None \<Longrightarrow>
   snd (Get now key c) = c\<lparr>stats := (stats c)\<lparr>Misses := Misses (stats c) + 1\<rparr>\<rparr>"
  by (simp add: Get_def split: option.splits if_splits)

lemma Get_absent_or_expired:
  "items c key = None \<or> expired_key now (items c) key \<Longrightarrow> fst (Get now key c) = None"
  by (auto simp: Get_def expired_key_def has_passed_def split: option.splits)

lemma Get_frame:
  "maxItems (snd (Get now key c)) = maxItems c \<and>
   Size (stats (snd (Get now key c))) = Size (stats c) \<and>
   Evictions (stats (snd (Get now key c))) = Evictions (stats c)"
  by (simp add: Get_def split: option.splits)

lemma removes_iff:
  assumes that: "items c k \<noteq> None"
  shows "(items (cache_after call c) k = None) = removes call c k"
proof (cases call)
  case (CallSet now ks key val d)
  show ?thesis
  proof (cases "maxItems c \<le> int (len_items c)")
    case True
    then show ?thesis using CallSet that
      by (auto simp: Set_def Let_def evictOldest_def)
  next
    case False
    then show ?thesis using CallSet that
      by (auto simp: Set_def Let_def)
  qed
next
  case (CallGet now key)
  then show ?thesis using that by (simp add: Get_items)
next
  case (CallGetWithExpiration now key)
  then show ?thesis using that
    by (simp add: GetWithExpiration_def split: option.splits)
next
  case (CallDelete key)
  then show ?thesis using that by (simp add: Delete_def Let_def)
next
  case CallClear
  then show ?thesis by (simp add: Clear_def)
next
  case (CallDeleteExpired now ks)
  then show ?thesis using that
    by (auto simp: DeleteExpired_def Let_def loop_items)
qed (use that in simp_all)

text \<open>
  Claim C10. \<open>Get\<close> never changes the entries of the cache, nor their number, nor the
  recorded size, nor the capacity. A \<open>Get\<close> on an absent or an expired key returns
  not-found and changes the miss counter only, so an expired entry stays stored. An entry
  that is stored leaves the cache through one call only when that call is \<open>Delete\<close>
  of its key, \<open>Clear\<close>, a \<open>DeleteExpired\<close> that finds it expired, or a \<open>Set\<close> of
  another key on a full cache whose eviction selects it.
\<close>

theorem Get_leaves_entries:
  "items (snd (Get now key c)) = items c \<and>
   ItemCount (snd (Get now key c)) = ItemCount c \<and>
   Size (stats (snd (Get now key c))) = Size (stats c) \<and>
   maxItems (snd (Get now key c)) = maxItems c \<and>
   (items c key = None \<or> expired_key now (items c) key \<longrightarrow>
      Get now key c = (None, c\<lparr>stats := (stats c)\<lparr>Misses := Misses (stats c) + 1\<rparr>\<rparr>)) \<and>
   (items c k \<noteq> None \<longrightarrow>
      (items (cache_after call c) k = None) = removes call c k)"
proof -
  have a: "items (snd (Get now key c)) = items c" by (rule Get_items)
  have b: "ItemCount (snd (Get now key c)) = ItemCount c"
    by (simp add: ItemCount_def len_items_def Get_items)
  have m: "items c key = None \<or> expired_key now (items c) key \<longrightarrow>
      Get now key c = (None, c\<lparr>stats := (stats c)\<lparr>Misses := Misses (stats c) + 1\<rparr>\<rparr>)"
  proof
    assume h: "items c key = None \<or> expired_key now (items c) key"
    then have "fst (Get now key c) = None" by (rule Get_absent_or_expired)
    then show "Get now key c = (None, c\<lparr>stats := (stats c)\<lparr>Misses := Misses (stats c) + 1\<rparr>\<rparr>)"
      using Get_miss [of now key c] by (simp add: prod_eq_iff)
  qed
  have r: "items c k \<noteq> None \<longrightarrow> (items (cache_after call c) k = None) = removes call c k"
    using removes_iff by blast
  show ?thesis using a b m r Get_frame [of now key c] by simp
qed

theorem Get_leaves_entries_witness:
  "expired_key 100 (items sweep_example) ''a'' \<and>
   fst (Get 100 ''a'' sweep_example) = None \<and>
   items (snd (Get 100 ''a'' sweep_example)) ''a'' = Some \<lparr>Value = 1, Expiration = 50\<rparr> \<and>
   ItemCount (snd (Get 100 ''a'' sweep_example)) = 3 \<and>
   items (cache_after (CallGet 100 ''a'') sweep_example) ''a'' \<noteq> None \<and>
   items (cache_after (CallDeleteExpired 100 [''c'', ''a'', ''b'']) sweep_example) ''a'' = None"
  using Get_leaves_entries [of 100 "''a''" sweep_example "''a''" "CallGet 100 ''a''"]
        Get_leaves_entries [of 100 "''a''" sweep_example "''a''"
                               "CallDeleteExpired 100 [''c'', ''a'', ''b'']"]
  by (simp add: sweep_example_items expired_key_def has_passed_def ItemCount_def len_items_def)

subsection \<open>Overwriting a key of a full cache\<close>

text \<open>
  Claim C9. When the cache holds exactly \<open>maxItems\<close> entries and \<open>Set\<close> is called
  with a key that is present, \<open>evictOldest\<close> still runs before the overwrite: the
  entries after the call are those \<open>evictOldest\<close> leaves, with the key overwritten.
  Whenever the entry it selects (with a non-empty key, as \<open>evictOldest\<close> requires) is
  not the key being written, that unrelated entry is gone after the call and the cache
  holds one entry less than before.
\<close>

theorem Set_existing_key_at_capacity_evicts:
  "range_order (items c) ks \<Longrightarrow> int (len_items c) = maxItems c \<Longrightarrow> key \<in> dom (items c) \<Longrightarrow>
   (\<exists>e. items (Set now ks key val d c) =
          (items (evictOldest ks c))(key \<mapsto> \<lparr>Value = val, Expiration = e\<rparr>)) \<and>
   Evictions (stats (Set now ks key val d c)) = Evictions (stats (evictOldest ks c)) \<and>
   (victim = fst (evictOldest_scan (items c) ks ('''', MaxInt64)) \<and>
    victim \<noteq> '''' \<and> victim \<noteq> key \<longrightarrow>
      victim \<in> dom (items c) \<and>
      victim \<notin> dom (items (Set now ks key val d c)) \<and>
      Evictions (stats (Set now ks key val d c)) = Evictions (stats c) + 1 \<and>
      len_items (Set now ks key val d c) = len_items c - 1)"
proof -
  assume r: "range_order (items c) ks" and cap: "int (len_items c) = maxItems c"
    and k: "key \<in> dom (items c)"
  have a: "\<exists>e. items (Set now ks key val d c) =
          (items (evictOldest ks c))(key \<mapsto> \<lparr>Value = val, Expiration = e\<rparr>)"
    using cap by (simp add: Set_def Let_def) blast
  have b: "Evictions (stats (Set now ks key val d c)) = Evictions (stats (evictOldest ks c))"
    using cap by (simp add: Set_def Let_def)
  have c: "victim = fst (evictOldest_scan (items c) ks ('''', MaxInt64)) \<and>
    victim \<noteq> '''' \<and> victim \<noteq> key \<longrightarrow>
      victim \<in> dom (items c) \<and>
      victim \<notin> dom (items (Set now ks key val d c)) \<and>
      Evictions (stats (Set now ks key val d c)) = Evictions (stats c) + 1 \<and>
      len_items (Set now ks key val d c) = len_items c - 1"
  proof
    assume h: "victim = fst (evictOldest_scan (items c) ks ('''', MaxInt64)) \<and>
      victim \<noteq> '''' \<and> victim \<noteq> key"
    from h have v: "victim = fst (evictOldest_scan (items c) ks ('''', MaxInt64))"
      by (rule conjunct1)
    from h have ne: "victim \<noteq> ''''" by (rule conjunct1 [OF conjunct2])
    from h have nk: "victim \<noteq> key" by (rule conjunct2 [OF conjunct2])
    have cap': "maxItems c \<le> int (len_items c)" using cap by simp
    note t = Set_evicts_min_expiration [OF r cap' v ne, of now key val d]
    from t have vin: "victim \<in> dom (items c)" by auto
    from t obtain e where e: "items (Set now ks key val d c) =
          ((items c)(victim := None))(key \<mapsto> \<lparr>Value = val, Expiration = e\<rparr>)" by auto
    have out: "victim \<notin> dom (items (Set now ks key val d c))"
      using e nk by simp
    have "dom (items (Set now ks key val d c)) = dom (items c) - {victim}"
      using e k nk by (simp only: dom_fun_upd) auto
    then have l: "len_items (Set now ks key val d c) = len_items c - 1"
      using vin by (simp add: len_items_def)
    show "victim \<in> dom (items c) \<and>
      victim \<notin> dom (items (Set now ks key val d c)) \<and>
      Evictions (stats (Set now ks key val d c)) = Evictions (stats c) + 1 \<and>
      len_items (Set now ks key val d c) = len_items c - 1"
      using vin out l t by simp
  qed
  show ?thesis by (intro conjI a b c)
qed

theorem Set_existing_key_at_capacity_evicts_witness:
  "range_order (items full_example) [''c'', ''a'', ''b''] \<and>
   int (len_items full_example) = maxItems full_example \<and>
   ''a'' \<in> dom (items full_example) \<and>
   ''b'' \<in> dom (items full_example) \<and>
   ''b'' \<notin> dom (items (Set 20 [''c'', ''a'', ''b''] ''a'' 9 100 full_example)) \<and>
   len_items (Set 20 [''c'', ''a'', ''b''] ''a'' 9 100 full_example) = 2"
proof -
  have cap: "int (len_items full_example) = maxItems full_example"
    by (simp add: full_example_maxItems full_example_len)
  have k: "''a'' \<in> dom (items full_example)" by (simp add: full_example_items)
  show ?thesis
    using Set_existing_key_at_capacity_evicts
      [OF full_example_range cap k, of 20 9 100 "''b''"]
      full_example_range cap k
    by (simp add: full_example_items full_example_len MaxInt64_def)
qed

section \<open>Properties of the event bus\<close>

subsection \<open>The fan-out\<close>

lemma fan_out_member:
  "g \<in> set (fan_out hs ks e) \<Longrightarrow>
   delivered g = e \<and> hs (subscriber g) = Some (handler g) \<and> subscriber g \<in> set ks"
  by (induction ks) (auto split: option.splits)

lemma fan_out_absent:
  "hs k = None \<Longrightarrow> filter (\<lambda>g. subscriber g = k) (fan_out hs ks e) = []"
  by (induction ks) (auto split: option.splits)

lemma fan_out_not_visited:
  "k \<notin> set ks \<Longrightarrow> filter (\<lambda>g. subscriber g = k) (fan_out hs ks e) = []"
  by (induction ks) (auto split: option.splits)

lemma fan_out_once:
  "distinct ks \<Longrightarrow> k \<in> set ks \<Longrightarrow> hs k = Some h \<Longrightarrow>
   filter (\<lambda>g. subscriber g = k) (fan_out hs ks e) =
     [\<lparr>subscriber = k, handler = h, delivered = e\<rparr>]"
proof (induction ks)
  case Nil
  then show ?case by simp
next
  case (Cons a ks)
  show ?case
  proof (cases "a = k")
    case True
    then have "k \<notin> set ks" using Cons.prems by simp
    then show ?thesis using True Cons.prems fan_out_not_visited [of k ks hs e] by simp
  next
    case False
    then show ?thesis using Cons by (auto split: option.splits)
  qed
qed

lemma handlers_of_Subscribe:
  "handlers_of (snd (Subscribe u t h eb)) t' =
     (if t' = t then (handlers_of eb t)(t @ ''-'' @ u \<mapsto> h) else handlers_of eb t')"
  by (simp add: Subscribe_def Let_def handlers_of_def)

lemma handlers_of_unsubscribe:
  "handlers_of (unsubscribe t k eb) t' =
     (if t' = t then (handlers_of eb t)(k := None) else handlers_of eb t')"
  by (auto simp: unsubscribe_def handlers_of_def split: option.splits)

lemma handlers_of_AddMiddleware: "handlers_of (AddMiddleware mw eb) t = handlers_of eb t"
  by (simp add: AddMiddleware_def handlers_of_def)

lemma Publish_invocations:
  "fst (Publish ks e eb) =
     fan_out (handlers_of eb (Type (apply_middleware (middleware eb) e))) ks
       (apply_middleware (middleware eb) e)"
  by (simp add: Publish_def Let_def handlers_of_def split: prod.splits option.splits)

lemma handlers_of_Publish: "handlers_of (snd (Publish ks e eb)) t = handlers_of eb t"
  by (simp add: Publish_def Let_def handlers_of_def split: prod.splits option.splits)

lemma Subscribe_sub:
  "fst (Subscribe u t h eb) =
     \<lparr>SubID = t @ ''-'' @ u, SubType = t, SubHandler = h, unsubFn = (t, t @ ''-'' @ u)\<rparr>"
  by (simp add: Subscribe_def Let_def)

lemma apply_middleware_Nil: "apply_middleware [] e = e"
  by (simp add: apply_middleware_def)

lemma Publish_once:
  assumes r: "range_order (handlers_of eb (Type (apply_middleware (middleware eb) e))) ks"
    and h: "handlers_of eb (Type (apply_middleware (middleware eb) e)) k = Some h"
  shows "filter (\<lambda>g. subscriber g = k) (fst (Publish ks e eb)) =
     [\<lparr>subscriber = k, handler = h, delivered = apply_middleware (middleware eb) e\<rparr>]"
proof -
  have d: "distinct ks" using r by (simp add: range_order_def)
  have "k \<in> set ks" using r h by (auto simp: range_order_def)
  with d show ?thesis using h by (simp add: Publish_invocations fan_out_once)
qed

lemma Publish_none:
  "handlers_of eb (Type (apply_middleware (middleware eb) e)) k = None \<Longrightarrow>
   filter (\<lambda>g. subscriber g = k) (fst (Publish ks e eb)) = []"
  by (simp add: Publish_invocations fan_out_absent)

lemma middleware_Subscribe: "middleware (snd (Subscribe u t h eb)) = middleware eb"
  by (simp add: Subscribe_def Let_def)

lemma middleware_unsubscribe: "middleware (unsubscribe t k eb) = middleware eb"
  by (simp add: unsubscribe_def split: option.splits)

lemma bus_example_handlers:
  "handlers_of bus_example EventTypeWorkflow =
     [''workflow-u1'' \<mapsto> ok_handler, ''workflow-u2'' \<mapsto> failing_handler]"
  by (simp add: bus_example_def Subscribe_def NewEventBus_def handlers_of_def Let_def)

lemma bus_example_middleware: "middleware bus_example = []"
  by (simp add: bus_example_def Subscribe_def NewEventBus_def handlers_of_def Let_def)

subsection \<open>Publishing an event that has no timestamp\<close>

text \<open>
  Claim C3 at an event whose timestamp is not set. The \<open>Publish\<close> that calls the
  consumer hands the event on as it is: the consumer and both subscribers receive it
  without a timestamp. The earlier \<open>Publish\<close> of the same file does set the timestamp,
  to the current time 100, and never calls the consumer.
\<close>

theorem Publish_leaves_timestamp_unset:
  "Timestamp event_example = None \<and>
   consumer_state (snd (Publish [''workflow-u2'', ''workflow-u1''] event_example bus_example))
     = [event_example] \<and>
   map delivered (fst (Publish [''workflow-u2'', ''workflow-u1''] event_example bus_example))
     = [event_example, event_example] \<and>
   map delivered
     (fst (Publish_first 100 [''workflow-u2'', ''workflow-u1''] event_example bus_example))
     = [event_example\<lparr>Timestamp := Some 100\<rparr>, event_example\<lparr>Timestamp := Some 100\<rparr>] \<and>
   consumer_state
     (snd (Publish_first 100 [''workflow-u2'', ''workflow-u1''] event_example bus_example))
     = []"
  by (simp add: Publish_def Publish_first_def Let_def bus_example_handlers bus_example_middleware
      apply_middleware_def keep_all_def RegistryEventConsumer_Consume_def event_example_def
      bus_example_def Subscribe_def NewEventBus_def handlers_of_def)

text \<open>
  The rest of what \<open>Publish\<close> does: the middleware runs in the order of registration,
  the consumer is called on the outcome, its error is logged, and the fan-out
  (\<open>Publish_invocations\<close>) does not depend on what the consumer returns.
\<close>

lemma apply_middleware_append:
  "apply_middleware (mws @ [mw]) e = mw (apply_middleware mws e)"
  by (simp add: apply_middleware_def)

lemma AddMiddleware_order:
  "apply_middleware (middleware (AddMiddleware mw eb)) e = mw (apply_middleware (middleware eb) e)"
  by (simp add: AddMiddleware_def apply_middleware_append)

lemma Publish_consumer_called:
  "consumer_state (snd (Publish ks e eb)) =
     snd (consumer eb (apply_middleware (middleware eb) e) (consumer_state eb))"
  by (simp add: Publish_def Let_def split: prod.splits option.splits)

lemma Publish_consumer_error_logged:
  "fst (consumer eb (apply_middleware (middleware eb) e) (consumer_state eb)) = Some err \<Longrightarrow>
   logger (snd (Publish ks e eb)) =
     logger eb @ [\<lparr>log_level = ''error'', log_fields = [], log_error = Some err,
                   log_message = ''Failed to consume event''\<rparr>]"
  by (auto simp: Publish_def Let_def split: prod.splits option.splits)

text \<open>
  A consumer that refuses the event: the subscriber is still served, and the refusal is in
  the log. A handler that fails: both handlers are called, and the failure is a line that
  the failing goroutine logs.
\<close>

lemma Publish_with_failing_consumer:
  "map subscriber
     (fst (Publish [''workflow-u1''] event_example
        (snd (Subscribe ''u1'' EventTypeWorkflow ok_handler (NewEventBus refuse_all [])))))
     = [''workflow-u1''] \<and>
   logger
     (snd (Publish [''workflow-u1''] event_example
        (snd (Subscribe ''u1'' EventTypeWorkflow ok_handler (NewEventBus refuse_all [])))))
     = [\<lparr>log_level = ''error'', log_fields = [],
         log_error = Some (New ''event channel full''),
         log_message = ''Failed to consume event''\<rparr>]"
  by (simp add: Publish_def Let_def Subscribe_def NewEventBus_def handlers_of_def
      apply_middleware_def refuse_all_def RegistryEventConsumer_Consume_def event_example_def)

lemma failing_handler_is_isolated:
  "map subscriber (fst (Publish [''workflow-u2'', ''workflow-u1''] event_example bus_example))
     = [''workflow-u2'', ''workflow-u1''] \<and>
   concat (map run_invocation
     (fst (Publish [''workflow-u2'', ''workflow-u1''] event_example bus_example)))
     = [\<lparr>log_level = ''error'', log_fields = [(''subscriber'', ''workflow-u2'')],
         log_error = Some (New ''handler failed''),
         log_message = ''Failed to handle event''\<rparr>]"
  by (simp add: Publish_def Let_def bus_example_def Subscribe_def NewEventBus_def handlers_of_def
      apply_middleware_def keep_all_def RegistryEventConsumer_Consume_def event_example_def
      run_invocation_def ok_handler_def failing_handler_def)

subsection \<open>Identifiers of subscriptions\<close>

text \<open>
  The generator hands out a new identifier at every call: two calls return the same string
  only when they are the same call, and no identifier is empty.
\<close>

lemma uuid_New_inj: "(fst (uuid_New i) = fst (uuid_New j)) = (i = j)"
proof
  assume "fst (uuid_New i) = fst (uuid_New j)"
  then have "length (fst (uuid_New i)) = length (fst (uuid_New j))" by simp
  then show "i = j" by (simp add: uuid_New_def)
qed simp

lemma uuid_New_nonempty: "fst (uuid_New n) \<noteq> ''''"
  by (simp add: uuid_New_def)

lemma uuid_New_next: "snd (uuid_New n) = Suc n"
  by (simp add: uuid_New_def)

text \<open>
  \<open>Subscribe\<close> draws one identifier and registers the handler under the event type
  followed by \<open>-\<close> and that identifier.
\<close>

lemma Subscribe_uuid_sub:
  "fst (Subscribe_uuid t h st) =
     \<lparr>SubID = t @ ''-'' @ fst (uuid_New (fst st)), SubType = t, SubHandler = h,
      unsubFn = (t, t @ ''-'' @ fst (uuid_New (fst st)))\<rparr>"
  by (simp add: Subscribe_uuid_def Subscribe_def Let_def split: prod.splits)

lemma Subscribe_uuid_state:
  "snd (Subscribe_uuid t h st) =
     (Suc (fst st), snd (Subscribe (fst (uuid_New (fst st))) t h (snd st)))"
  by (simp add: Subscribe_uuid_def Let_def uuid_New_def split: prod.splits)

lemma Subscribe_uuid_next: "fst (snd (Subscribe_uuid t h st)) = Suc (fst st)"
  by (simp add: Subscribe_uuid_state)

lemma sub_id_eq: "(t @ ''-'' @ fst (uuid_New i) = t @ ''-'' @ fst (uuid_New j)) = (i = j)"
  using uuid_New_inj [of i j] by simp

text \<open>
  A run of calls on the bus. The generator never goes back, so an identifier that was
  handed out and is not registered stays unregistered, whatever is called, and no goroutine
  is started for it.
\<close>

lemma bus_calls_Cons:
  "fst (bus_calls (c # cs) st) = fst (bus_call c st) @ fst (bus_calls cs (snd (bus_call c st)))"
  "snd (bus_calls (c # cs) st) = snd (bus_calls cs (snd (bus_call c st)))"
  by (simp_all add: Let_def split: prod.splits)

lemma bus_call_mono: "fst st \<le> fst (snd (bus_call c st))"
  by (cases c) (simp_all add: Subscribe_uuid_state uuid_New_next)

lemma bus_calls_mono: "fst st \<le> fst (snd (bus_calls cs st))"
proof (induction cs arbitrary: st)
  case Nil
  then show ?case by simp
next
  case (Cons c cs)
  have "fst st \<le> fst (snd (bus_call c st))" by (rule bus_call_mono)
  also have "\<dots> \<le> fst (snd (bus_calls cs (snd (bus_call c st))))" by (rule Cons.IH)
  finally show ?case by (simp only: bus_calls_Cons)
qed

lemma bus_call_keeps_absent:
  assumes "j < fst st"
    and "handlers_of (snd st) t (t @ ''-'' @ fst (uuid_New j)) = None"
  shows "handlers_of (snd (snd (bus_call c st))) t (t @ ''-'' @ fst (uuid_New j)) = None"
proof (cases c)
  case (CallSubscribe t' h)
  have "fst st \<noteq> j" using assms(1) by simp
  then show ?thesis
    using CallSubscribe assms(2) sub_id_eq [of t "fst st" j]
    by (auto simp: Subscribe_uuid_state handlers_of_Subscribe)
next
  case (CallUnsubscribe sub)
  then show ?thesis using assms(2)
    by (auto simp: Unsubscribe_def handlers_of_unsubscribe)
next
  case (CallAddMiddleware mw)
  then show ?thesis using assms(2) by (simp add: handlers_of_AddMiddleware)
next
  case (CallPublish ks e)
  then show ?thesis using assms(2) by (simp add: handlers_of_Publish)
next
  case CallNewUUID
  then show ?thesis using assms(2) by simp
qed

lemma bus_call_not_served:
  assumes "handlers_of (snd st) t k = None" and "g \<in> set (fst (bus_call c st))"
  shows "\<not> serves g t k"
proof (cases c)
  case (CallPublish ks e)
  with assms(2) have
    "g \<in> set (fan_out (handlers_of (snd st) (Type (apply_middleware (middleware (snd st)) e)))
                ks (apply_middleware (middleware (snd st)) e))"
    by (simp add: Publish_invocations)
  from fan_out_member [OF this] assms(1) show ?thesis by (auto simp: serves_def)
qed (use assms(2) in auto)

lemma bus_calls_not_served:
  "j < fst st \<Longrightarrow> handlers_of (snd st) t (t @ ''-'' @ fst (uuid_New j)) = None \<Longrightarrow>
   g \<in> set (fst (bus_calls cs st)) \<Longrightarrow> \<not> serves g t (t @ ''-'' @ fst (uuid_New j))"
proof (induction cs arbitrary: st)
  case Nil
  then show ?case by simp
next
  case (Cons c cs)
  have keep: "handlers_of (snd (snd (bus_call c st))) t (t @ ''-'' @ fst (uuid_New j)) = None"
    using Cons.prems(1,2) by (rule bus_call_keeps_absent)
  have lt: "j < fst (snd (bus_call c st))"
    using Cons.prems(1) bus_call_mono [of st c] by simp
  from Cons.prems(3) have
    "g \<in> set (fst (bus_call c st)) \<or> g \<in> set (fst (bus_calls cs (snd (bus_call c st))))"
    by (simp only: bus_calls_Cons) auto
  then show ?case
  proof
    assume "g \<in> set (fst (bus_call c st))"
    with Cons.prems(2) show ?thesis by (rule bus_call_not_served)
  next
    assume "g \<in> set (fst (bus_calls cs (snd (bus_call c st))))"
    with lt keep show ?thesis by (rule Cons.IH)
  qed
qed

text \<open>Every identifier in use was handed out by the generator.\<close>

lemma bus_call_issued:
  assumes "\<forall>t k. handlers_of (snd st) t k \<noteq> None \<longrightarrow>
             (\<exists>j < fst st. k = t @ ''-'' @ fst (uuid_New j))"
  shows "\<forall>t k. handlers_of (snd (snd (bus_call c st))) t k \<noteq> None \<longrightarrow>
             (\<exists>j < fst (snd (bus_call c st)). k = t @ ''-'' @ fst (uuid_New j))"
proof (cases c)
  case (CallSubscribe t' h)
  show ?thesis
  proof (intro allI impI)
    fix t k
    assume a: "handlers_of (snd (snd (bus_call c st))) t k \<noteq> None"
    show "\<exists>j < fst (snd (bus_call c st)). k = t @ ''-'' @ fst (uuid_New j)"
    proof (cases "t = t' \<and> k = t' @ ''-'' @ fst (uuid_New (fst st))")
      case True
      then show ?thesis using CallSubscribe by (auto simp: Subscribe_uuid_state)
    next
      case False
      then have "handlers_of (snd st) t k \<noteq> None"
        using a CallSubscribe
        by (auto simp: Subscribe_uuid_state handlers_of_Subscribe split: if_splits)
      then obtain j where "j < fst st" "k = t @ ''-'' @ fst (uuid_New j)"
        using assms by blast
      then show ?thesis using CallSubscribe
        by (auto simp: Subscribe_uuid_state intro: less_SucI)
    qed
  qed
next
  case (CallUnsubscribe sub)
  then show ?thesis using assms
    by (auto simp: Unsubscribe_def handlers_of_unsubscribe split: if_splits)
next
  case (CallAddMiddleware mw)
  then show ?thesis using assms by (simp add: handlers_of_AddMiddleware)
next
  case (CallPublish ks e)
  then show ?thesis using assms by (simp add: handlers_of_Publish)
next
  case CallNewUUID
  then show ?thesis using assms by (simp add: uuid_New_next) (meson less_SucI)
qed

lemma bus_calls_issued:
  "\<forall>t k. handlers_of (snd st) t k \<noteq> None \<longrightarrow>
             (\<exists>j < fst st. k = t @ ''-'' @ fst (uuid_New j)) \<Longrightarrow>
   \<forall>t k. handlers_of (snd (snd (bus_calls cs st))) t k \<noteq> None \<longrightarrow>
             (\<exists>j < fst (snd (bus_calls cs st)). k = t @ ''-'' @ fst (uuid_New j))"
proof (induction cs arbitrary: st)
  case Nil
  then show ?case by simp
next
  case (Cons c cs)
  from Cons.IH [OF bus_call_issued [OF Cons.prems, of c]]
  show ?case by (simp only: bus_calls_Cons)
qed

lemma handlers_of_NewEventBus: "handlers_of (NewEventBus consume c0) t k = None"
  by (simp add: NewEventBus_def handlers_of_def)

lemma new_identifier_unused:
  "handlers_of (snd (snd (bus_calls cs (n0, NewEventBus consume c0)))) t
     (t @ ''-'' @ fst (uuid_New (fst (snd (bus_calls cs (n0, NewEventBus consume c0)))))) = None"
proof (rule ccontr)
  let ?st = "snd (bus_calls cs (n0, NewEventBus consume c0))"
  assume a: "handlers_of (snd ?st) t (t @ ''-'' @ fst (uuid_New (fst ?st))) \<noteq> None"
  have "\<forall>t k. handlers_of (snd (n0, NewEventBus consume c0)) t k \<noteq> None \<longrightarrow>
             (\<exists>j < fst (n0, NewEventBus consume c0). k = t @ ''-'' @ fst (uuid_New j))"
    by (simp add: handlers_of_NewEventBus)
  from bus_calls_issued [OF this, of cs] a obtain j where
    "j < fst ?st" "t @ ''-'' @ fst (uuid_New (fst ?st)) = t @ ''-'' @ fst (uuid_New j)"
    by blast
  then show False using sub_id_eq [of t "fst ?st" j] by simp
qed

subsection \<open>Two subscribers, and a subscriber that leaves\<close>

text \<open>What the goroutine started for a subscription does: it applies the handler.\<close>

lemma run_invocation_record:
  "run_invocation \<lparr>subscriber = k, handler = h, delivered = e\<rparr> =
     (case h e of
        None \<Rightarrow> []
      | Some err \<Rightarrow>
          [\<lparr>log_level = ''error'', log_fields = [(''subscriber'', k)],
            log_error = Some err, log_message = ''Failed to handle event''\<rparr>])"
  by (simp add: run_invocation_def split: option.splits)

text \<open>
  Claim C5, as the code has it. Two handlers \<open>ha\<close> and \<open>hb\<close> are subscribed, one after
  the other, to the event type \<open>t\<close> of any bus, and an event \<open>e\<close> is published.
  \<open>Publish\<close> first runs the middleware chain on \<open>e\<close>; let \<open>e'\<close> be what the chain
  returns, and let \<open>e'\<close> still have the type \<open>t\<close>. Then for each of the two subscriptions
  exactly one goroutine is started, it applies that subscription's handler to \<open>e'\<close> (the
  lines it logs are those of the handler's result on \<open>e'\<close>), and \<open>e'\<close> is the published
  event itself when no middleware is registered. When the first subscription is cancelled
  before the event is published, nothing is started for it and the second still receives
  \<open>e'\<close> once. After \<open>Unsubscribe\<close> of a subscription has returned, in whatever state
  \<open>later\<close> the calls \<open>csl\<close> have brought the bus, no sequence \<open>csa\<close> of calls starts a
  goroutine for it. The two subscriptions have different identifiers, and on every bus
  \<open>reached\<close> from a new one by a sequence of calls, a further \<open>Subscribe\<close> registers its
  handler under an identifier that was not in use and leaves every other subscription as
  it was.
\<close>

theorem subscribers_receive_middleware_output:
  fixes eb :: "('d, 'c) EventBus" and t t' :: EventType and ha hb h :: "'d EventHandler"
    and e :: "'d Event" and n m :: nat and csr csl csa :: "'d BusCall list"
    and consume :: "'d Event \<Rightarrow> 'c \<Rightarrow> error option \<times> 'c" and c :: 'c
  defines "s1 \<equiv> fst (Subscribe_uuid t ha (n, eb))"
    and "st1 \<equiv> snd (Subscribe_uuid t ha (n, eb))"
  defines "s2 \<equiv> fst (Subscribe_uuid t hb st1)"
    and "st2 \<equiv> snd (Subscribe_uuid t hb st1)"
  defines "e' \<equiv> apply_middleware (middleware eb) e"
  defines "later \<equiv> snd (bus_calls csl st1)"
  defines "reached \<equiv> snd (bus_calls csr (m, NewEventBus consume c))"
  defines "fresh \<equiv> fst (Subscribe_uuid t' h reached)"
    and "after \<equiv> snd (snd (Subscribe_uuid t' h reached))"
  assumes ty: "Type e' = t"
    and ks: "range_order (handlers_of (snd st2) t) ks"
    and ks': "range_order (handlers_of (Unsubscribe s1 (snd st2)) t) ks'"
  shows "filter (\<lambda>g. subscriber g = SubID s1) (fst (Publish ks e (snd st2))) =
           [\<lparr>subscriber = SubID s1, handler = ha, delivered = e'\<rparr>] \<and>
         filter (\<lambda>g. subscriber g = SubID s2) (fst (Publish ks e (snd st2))) =
           [\<lparr>subscriber = SubID s2, handler = hb, delivered = e'\<rparr>] \<and>
         concat (map run_invocation
           (filter (\<lambda>g. subscriber g = SubID s1) (fst (Publish ks e (snd st2))))) =
           (case ha e' of
              None \<Rightarrow> []
            | Some err \<Rightarrow>
                [\<lparr>log_level = ''error'', log_fields = [(''subscriber'', SubID s1)],
                  log_error = Some err, log_message = ''Failed to handle event''\<rparr>]) \<and>
         concat (map run_invocation
           (filter (\<lambda>g. subscriber g = SubID s2) (fst (Publish ks e (snd st2))))) =
           (case hb e' of
              None \<Rightarrow> []
            | Some err \<Rightarrow>
                [\<lparr>log_level = ''error'', log_fields = [(''subscriber'', SubID s2)],
                  log_error = Some err, log_message = ''Failed to handle event''\<rparr>]) \<and>
         (middleware eb = [] \<longrightarrow> e' = e) \<and>
         filter (\<lambda>g. subscriber g = SubID s1) (fst (Publish ks' e (Unsubscribe s1 (snd st2)))) = [] \<and>
         filter (\<lambda>g. subscriber g = SubID s2) (fst (Publish ks' e (Unsubscribe s1 (snd st2)))) =
           [\<lparr>subscriber = SubID s2, handler = hb, delivered = e'\<rparr>] \<and>
         (\<forall>g \<in> set (fst (bus_calls csa (fst later, Unsubscribe s1 (snd later)))).
            \<not> serves g t (SubID s1)) \<and>
         SubID s2 \<noteq> SubID s1 \<and>
         handlers_of (snd reached) t' (SubID fresh) = None \<and>
         handlers_of after t' (SubID fresh) = Some h \<and>
         (\<forall>t'' k. (t'', k) \<noteq> (t', SubID fresh) \<longrightarrow>
            handlers_of after t'' k = handlers_of (snd reached) t'' k)"
proof -
  have id1: "SubID s1 = t @ ''-'' @ fst (uuid_New n)"
    by (simp add: s1_def Subscribe_uuid_sub)
  have st1: "st1 = (Suc n, snd (Subscribe (fst (uuid_New n)) t ha eb))"
    by (simp add: st1_def Subscribe_uuid_state)
  have id2: "SubID s2 = t @ ''-'' @ fst (uuid_New (Suc n))"
    by (simp add: s2_def Subscribe_uuid_sub st1)
  have st2: "snd st2 = snd (Subscribe (fst (uuid_New (Suc n))) t hb
                             (snd (Subscribe (fst (uuid_New n)) t ha eb)))"
    by (simp add: st2_def Subscribe_uuid_state st1)
  have ne: "SubID s2 \<noteq> SubID s1"
    unfolding id1 id2 using sub_id_eq [of t "Suc n" n] by simp
  have m2: "middleware (snd st2) = middleware eb"
    by (simp add: st2 middleware_Subscribe)
  have e2: "apply_middleware (middleware (snd st2)) e = e'" by (simp add: m2 e'_def)
  have ha: "handlers_of (snd st2) t (SubID s1) = Some ha"
    using ne by (simp add: st2 handlers_of_Subscribe id1 id2)
  have hb: "handlers_of (snd st2) t (SubID s2) = Some hb"
    by (simp add: st2 handlers_of_Subscribe id2)
  have p1: "filter (\<lambda>g. subscriber g = SubID s1) (fst (Publish ks e (snd st2))) =
           [\<lparr>subscriber = SubID s1, handler = ha, delivered = e'\<rparr>]"
    using Publish_once [of "snd st2" e ks "SubID s1" ha] ks ha ty by (simp add: e2)
  have p2: "filter (\<lambda>g. subscriber g = SubID s2) (fst (Publish ks e (snd st2))) =
           [\<lparr>subscriber = SubID s2, handler = hb, delivered = e'\<rparr>]"
    using Publish_once [of "snd st2" e ks "SubID s2" hb] ks hb ty by (simp add: e2)
  have r1: "concat (map run_invocation
           (filter (\<lambda>g. subscriber g = SubID s1) (fst (Publish ks e (snd st2))))) =
           (case ha e' of
              None \<Rightarrow> []
            | Some err \<Rightarrow>
                [\<lparr>log_level = ''error'', log_fields = [(''subscriber'', SubID s1)],
                  log_error = Some err, log_message = ''Failed to handle event''\<rparr>])"
    by (simp only: p1 list.map concat.simps append_Nil2 run_invocation_record)
  have r2: "concat (map run_invocation
           (filter (\<lambda>g. subscriber g = SubID s2) (fst (Publish ks e (snd st2))))) =
           (case hb e' of
              None \<Rightarrow> []
            | Some err \<Rightarrow>
                [\<lparr>log_level = ''error'', log_fields = [(''subscriber'', SubID s2)],
                  log_error = Some err, log_message = ''Failed to handle event''\<rparr>])"
    by (simp only: p2 list.map concat.simps append_Nil2 run_invocation_record)
  have p3: "middleware eb = [] \<longrightarrow> e' = e" by (simp add: e'_def apply_middleware_Nil)
  have un: "\<And>b. Unsubscribe s1 b = unsubscribe t (SubID s1) b"
    by (simp add: Unsubscribe_def s1_def Subscribe_uuid_sub)
  have m3: "apply_middleware (middleware (Unsubscribe s1 (snd st2))) e = e'"
    by (simp add: un middleware_unsubscribe e2)
  have g1: "handlers_of (Unsubscribe s1 (snd st2)) t (SubID s1) = None"
    by (simp add: un handlers_of_unsubscribe)
  have g2: "handlers_of (Unsubscribe s1 (snd st2)) t (SubID s2) = Some hb"
    using ne hb by (simp add: un handlers_of_unsubscribe)
  have p4: "filter (\<lambda>g. subscriber g = SubID s1)
              (fst (Publish ks' e (Unsubscribe s1 (snd st2)))) = []"
    using Publish_none [of "Unsubscribe s1 (snd st2)" e "SubID s1" ks'] g1 ty by (simp add: m3)
  have p5: "filter (\<lambda>g. subscriber g = SubID s2)
              (fst (Publish ks' e (Unsubscribe s1 (snd st2)))) =
           [\<lparr>subscriber = SubID s2, handler = hb, delivered = e'\<rparr>]"
    using Publish_once [of "Unsubscribe s1 (snd st2)" e ks' "SubID s2" hb] ks' g2 ty
    by (simp add: m3)
  have lt: "n < fst later"
    using bus_calls_mono [of st1 csl] by (simp add: later_def st1)
  have a3: "handlers_of (snd (fst later, Unsubscribe s1 (snd later))) t
              (t @ ''-'' @ fst (uuid_New n)) = None"
    using un [of "snd later"] by (simp add: handlers_of_unsubscribe id1)
  have p6: "\<forall>g \<in> set (fst (bus_calls csa (fst later, Unsubscribe s1 (snd later)))).
            \<not> serves g t (SubID s1)"
    unfolding id1
    using bus_calls_not_served [of n "(fst later, Unsubscribe s1 (snd later))" t _ csa] lt a3
    by auto
  have idf: "SubID fresh = t' @ ''-'' @ fst (uuid_New (fst reached))"
    by (simp add: fresh_def Subscribe_uuid_sub)
  have af: "after = snd (Subscribe (fst (uuid_New (fst reached))) t' h (snd reached))"
    by (simp add: after_def Subscribe_uuid_state)
  have p8: "handlers_of (snd reached) t' (SubID fresh) = None"
    unfolding idf reached_def by (rule new_identifier_unused)
  have p9: "handlers_of after t' (SubID fresh) = Some h"
    by (simp add: af idf handlers_of_Subscribe)
  have p10: "\<forall>t'' k. (t'', k) \<noteq> (t', SubID fresh) \<longrightarrow>
            handlers_of after t'' k = handlers_of (snd reached) t'' k"
    by (auto simp: af idf handlers_of_Subscribe)
  show ?thesis by (intro conjI p1 p2 r1 r2 p3 p4 p5 p6 ne p8 p9 p10)
qed

text \<open>
  The claim as the specification states it lets both handlers receive the event with the
  type, name and data it was published with. The middleware chain stands between: on the
  bus with two subscribers to \<open>''workflow''\<close>, a middleware that gives the event another
  type leaves a published \<open>''workflow''\<close> event with no handler at all, and a middleware
  that renames the event has both handlers receive another name than the published one.
\<close>

theorem subscribers_receive_middleware_output_counterexample:
  "Type event_example = EventTypeWorkflow \<and>
   dom (handlers_of (AddMiddleware retype_middleware bus_example) EventTypeWorkflow)
     = {''workflow-u1'', ''workflow-u2''} \<and>
   fst (Publish [''workflow-u2'', ''workflow-u1''] event_example
          (AddMiddleware retype_middleware bus_example)) = [] \<and>
   Name event_example = ''WorkflowAdded'' \<and>
   map delivered
     (fst (Publish [''workflow-u2'', ''workflow-u1''] event_example
             (AddMiddleware rename_middleware bus_example)))
     = [event_example\<lparr>Name := ''Renamed''\<rparr>, event_example\<lparr>Name := ''Renamed''\<rparr>]"
  by (simp add: Publish_def Let_def AddMiddleware_def bus_example_def Subscribe_def
      NewEventBus_def handlers_of_def apply_middleware_def keep_all_def
      RegistryEventConsumer_Consume_def event_example_def retype_middleware_def
      rename_middleware_def)
    auto

text \<open>
  The bus of the example, its two subscriptions made with identifiers of the generator.
\<close>

lemma uuid_New_eval:
  "fst (uuid_New 0) = ''u''" "fst (uuid_New (Suc 0)) = ''uu''"
  "snd (uuid_New 0) = Suc 0" "snd (uuid_New (Suc 0)) = Suc (Suc 0)"
  by (simp_all add: uuid_New_def)

lemma subscribed_example_state:
  "fst subscribed_example = Suc (Suc 0)"
  "handlers_of (snd subscribed_example) EventTypeWorkflow =
     [''workflow-u'' \<mapsto> ok_handler, ''workflow-uu'' \<mapsto> failing_handler]"
  "middleware (snd subscribed_example) = []"
  by (simp_all add: subscribed_example_def Subscribe_uuid_state uuid_New_eval Subscribe_def
      NewEventBus_def handlers_of_def Let_def)

text \<open>
  On that bus: both handlers receive the published event once, the failing handler's
  goroutine logs its error, and after the first subscription is cancelled a later
  \<open>Subscribe\<close> and \<open>Publish\<close> start goroutines for the other two subscriptions only.
\<close>

theorem subscribers_receive_middleware_output_witness:
  "Type (apply_middleware (middleware (NewEventBus keep_all ([] :: nat Event list)))
     event_example) = EventTypeWorkflow \<and>
   range_order (handlers_of (snd subscribed_example) EventTypeWorkflow)
     [''workflow-uu'', ''workflow-u''] \<and>
   filter (\<lambda>g. subscriber g = ''workflow-u'')
     (fst (Publish [''workflow-uu'', ''workflow-u''] event_example (snd subscribed_example))) =
     [\<lparr>subscriber = ''workflow-u'', handler = ok_handler, delivered = event_example\<rparr>] \<and>
   filter (\<lambda>g. subscriber g = ''workflow-uu'')
     (fst (Publish [''workflow-uu'', ''workflow-u''] event_example (snd subscribed_example))) =
     [\<lparr>subscriber = ''workflow-uu'', handler = failing_handler,
       delivered = event_example\<rparr>] \<and>
   concat (map run_invocation
     (filter (\<lambda>g. subscriber g = ''workflow-uu'')
        (fst (Publish [''workflow-uu'', ''workflow-u''] event_example
           (snd subscribed_example))))) =
     [\<lparr>log_level = ''error'', log_fields = [(''subscriber'', ''workflow-uu'')],
       log_error = Some (New ''handler failed''),
       log_message = ''Failed to handle event''\<rparr>] \<and>
   middleware (NewEventBus keep_all ([] :: nat Event list)) = [] \<and>
   map subscriber (fst (bus_calls
        [CallSubscribe EventTypeWorkflow ok_handler,
         CallPublish [''workflow-uu'', ''workflow-uuu''] event_example]
        (fst subscribed_example,
         Unsubscribe (fst (Subscribe_uuid EventTypeWorkflow ok_handler
                        (0, NewEventBus keep_all ([] :: nat Event list))))
           (snd subscribed_example)))) = [''workflow-uu'', ''workflow-uuu''] \<and>
   filter (\<lambda>g. serves g EventTypeWorkflow ''workflow-u'')
     (fst (bus_calls
        [CallSubscribe EventTypeWorkflow ok_handler,
         CallPublish [''workflow-uu'', ''workflow-uuu''] event_example]
        (fst subscribed_example,
         Unsubscribe (fst (Subscribe_uuid EventTypeWorkflow ok_handler
                        (0, NewEventBus keep_all ([] :: nat Event list))))
           (snd subscribed_example)))) = [] \<and>
   handlers_of (snd subscribed_example) EventTypeWorkflow ''workflow-uu''
     = Some failing_handler \<and>
   handlers_of (snd subscribed_example) EventTypeWorkflow ''workflow-u'' =
     handlers_of (snd (snd (Subscribe_uuid EventTypeWorkflow ok_handler
        (0, NewEventBus keep_all ([] :: nat Event list))))) EventTypeWorkflow ''workflow-u''"
proof -
  let ?eb = "NewEventBus keep_all ([] :: nat Event list)"
  let ?s1 = "fst (Subscribe_uuid EventTypeWorkflow ok_handler (0, ?eb))"
  let ?st1 = "snd (Subscribe_uuid EventTypeWorkflow ok_handler (0, ?eb))"
  have e: "apply_middleware (middleware ?eb) event_example = event_example"
    by (simp add: NewEventBus_def apply_middleware_def)
  have ty: "Type (apply_middleware (middleware ?eb) event_example) = EventTypeWorkflow"
    by (simp add: e) (simp add: event_example_def)
  have ks: "range_order (handlers_of (snd subscribed_example) EventTypeWorkflow)
              [''workflow-uu'', ''workflow-u'']"
    by (auto simp: range_order_def subscribed_example_state)
  have un: "handlers_of (Unsubscribe ?s1 (snd subscribed_example)) EventTypeWorkflow
              = [''workflow-uu'' \<mapsto> failing_handler]"
    by (simp add: Unsubscribe_def Subscribe_uuid_sub handlers_of_unsubscribe
        subscribed_example_state uuid_New_eval)
  have ks': "range_order (handlers_of (Unsubscribe ?s1 (snd subscribed_example))
               EventTypeWorkflow) [''workflow-uu'']"
    by (auto simp: range_order_def un)
  have later: "snd (bus_calls [CallSubscribe EventTypeWorkflow failing_handler] ?st1)
                 = subscribed_example"
    by (simp add: subscribed_example_def)
  have id1: "SubID ?s1 = ''workflow-u''"
    by (simp add: Subscribe_uuid_sub uuid_New_eval)
  have fh: "failing_handler event_example = Some (New ''handler failed'')"
    by (simp add: failing_handler_def)
  note t = subscribers_receive_middleware_output
      [where eb = ?eb and e = event_example and t = EventTypeWorkflow and ha = ok_handler
         and hb = failing_handler and n = 0
         and ks = "[''workflow-uu'', ''workflow-u'']" and ks' = "[''workflow-uu'']"
         and csl = "[CallSubscribe EventTypeWorkflow failing_handler]"
         and csa = "[CallSubscribe EventTypeWorkflow ok_handler,
                     CallPublish [''workflow-uu'', ''workflow-uuu''] event_example]"
         and csr = "[CallSubscribe EventTypeWorkflow ok_handler]" and m = 0
         and consume = keep_all and c = "[]" and t' = EventTypeWorkflow
         and h = failing_handler,
       OF ty ks [unfolded subscribed_example_def] ks' [unfolded subscribed_example_def]]
  have after: "snd (Subscribe_uuid EventTypeWorkflow failing_handler ?st1) = subscribed_example"
    by (simp add: subscribed_example_def)
  let ?b = "snd (Subscribe ''uuu'' EventTypeWorkflow ok_handler
              (Unsubscribe ?s1 (snd subscribed_example)))"
  have mb: "middleware ?b = []"
    by (simp add: middleware_Subscribe Unsubscribe_def middleware_unsubscribe
        subscribed_example_state)
  have tb: "Type (apply_middleware (middleware ?b) event_example) = EventTypeWorkflow"
    by (simp only: mb apply_middleware_Nil) (simp add: event_example_def)
  have hb: "handlers_of ?b EventTypeWorkflow =
              [''workflow-uu'' \<mapsto> failing_handler, ''workflow-uuu'' \<mapsto> ok_handler]"
    by (simp add: handlers_of_Subscribe un)
  have pb: "map subscriber (fst (Publish [''workflow-uu'', ''workflow-uuu''] event_example ?b))
              = [''workflow-uu'', ''workflow-uuu'']"
    by (simp add: Publish_invocations tb hb)
  have u3: "fst (uuid_New (Suc (Suc 0))) = ''uuu''"
    by (simp add: uuid_New_def)
  have sv: "map subscriber (fst (bus_calls
        [CallSubscribe EventTypeWorkflow ok_handler,
         CallPublish [''workflow-uu'', ''workflow-uuu''] event_example]
        (fst subscribed_example, Unsubscribe ?s1 (snd subscribed_example))))
      = [''workflow-uu'', ''workflow-uuu'']"
    using pb
    by (simp add: bus_calls_Cons Subscribe_uuid_state subscribed_example_state(1) u3)
  have c1: "filter (\<lambda>g. subscriber g = ''workflow-u'')
     (fst (Publish [''workflow-uu'', ''workflow-u''] event_example (snd subscribed_example))) =
     [\<lparr>subscriber = ''workflow-u'', handler = ok_handler, delivered = event_example\<rparr>]"
    and c2: "filter (\<lambda>g. subscriber g = ''workflow-uu'')
     (fst (Publish [''workflow-uu'', ''workflow-u''] event_example (snd subscribed_example))) =
     [\<lparr>subscriber = ''workflow-uu'', handler = failing_handler,
       delivered = event_example\<rparr>]"
    and c3: "concat (map run_invocation
     (filter (\<lambda>g. subscriber g = ''workflow-uu'')
        (fst (Publish [''workflow-uu'', ''workflow-u''] event_example
           (snd subscribed_example))))) =
     [\<lparr>log_level = ''error'', log_fields = [(''subscriber'', ''workflow-uu'')],
       log_error = Some (New ''handler failed''),
       log_message = ''Failed to handle event''\<rparr>]"
    and c4: "\<forall>g \<in> set (fst (bus_calls
        [CallSubscribe EventTypeWorkflow ok_handler,
         CallPublish [''workflow-uu'', ''workflow-uuu''] event_example]
        (fst subscribed_example, Unsubscribe ?s1 (snd subscribed_example)))).
      \<not> serves g EventTypeWorkflow ''workflow-u''"
    and c5: "handlers_of (snd subscribed_example) EventTypeWorkflow ''workflow-uu''
     = Some failing_handler"
    and c6: "handlers_of (snd subscribed_example) EventTypeWorkflow ''workflow-u'' =
     handlers_of (snd ?st1) EventTypeWorkflow ''workflow-u''"
    using t
    by (simp_all add: subscribed_example_def [symmetric] later id1 e fh Subscribe_uuid_sub
        Subscribe_uuid_next uuid_New_eval run_invocation_record after)
  have c4': "filter (\<lambda>g. serves g EventTypeWorkflow ''workflow-u'')
     (fst (bus_calls
        [CallSubscribe EventTypeWorkflow ok_handler,
         CallPublish [''workflow-uu'', ''workflow-uuu''] event_example]
        (fst subscribed_example, Unsubscribe ?s1 (snd subscribed_example)))) = []"
    using c4 by (simp only: filter_empty_conv)
  have mw: "middleware ?eb = []" by (simp add: NewEventBus_def)
  show ?thesis by (intro conjI ty ks c1 c2 c3 mw sv c4' c5 c6)
qed

section \<open>Properties of the manager\<close>

subsection \<open>Arguments that the validator rejects\<close>

text \<open>
  Claim C6. When the validator rejects the arguments, \<open>AddWorkflow\<close>, \<open>AddSecret\<close>
  and \<open>GenerateNodeProp\<close> return the validator's error, wrapped, and leave the manager
  as it was: no call on the GitHub client or the store, the same cache, no event.
\<close>

theorem validation_failure_has_no_effect:
  "(ValidateWorkflowArgs env wargs = Some err \<longrightarrow>
      AddWorkflow env clock wargs m =
        (Some (Errorf ''invalid workflow arguments: '' err), m)) \<and>
   (ValidateSecretArgs env sargs = Some err \<longrightarrow>
      AddSecret env clock sargs m =
        (Some (Errorf ''invalid secret arguments: '' err), m)) \<and>
   (ValidateNodePropArgs env nargs = Some err \<longrightarrow>
      GenerateNodeProp env clock uuid ks nargs m =
        (Some (Errorf ''invalid nodeprop arguments: '' err), m))"
  by (simp add: AddWorkflow_def AddSecret_def GenerateNodeProp_def)

theorem validation_failure_has_no_effect_witness:
  "ValidateWorkflowArgs (collaborators_example None) (workflow_args_example '''')
     = Some (New ''repository is required'') \<and>
   ValidateSecretArgs (collaborators_example None) (secret_args_example '''')
     = Some (New ''repository is required'') \<and>
   ValidateNodePropArgs (collaborators_example None) (nodeprop_args_example '''')
     = Some (New ''repository name is required'') \<and>
   AddWorkflow (collaborators_example None) (\<lambda>n. 100) (workflow_args_example '''')
       manager_example
     = (Some (Errorf ''invalid workflow arguments: '' (New ''repository is required'')),
        manager_example) \<and>
   github_calls (snd (AddSecret (collaborators_example None) (\<lambda>n. 100)
       (secret_args_example '''') manager_example)) = [] \<and>
   emitted (snd (GenerateNodeProp (collaborators_example None) (\<lambda>n. 100) ''uuid-1'' []
       (nodeprop_args_example '''') manager_example)) = []"
proof -
  have w: "ValidateWorkflowArgs (collaborators_example None) (workflow_args_example '''')
     = Some (New ''repository is required'')"
    by (simp add: collaborators_example_def workflow_args_example_def required_def)
  have s: "ValidateSecretArgs (collaborators_example None) (secret_args_example '''')
     = Some (New ''repository is required'')"
    by (simp add: collaborators_example_def secret_args_example_def required_def)
  have n: "ValidateNodePropArgs (collaborators_example None) (nodeprop_args_example '''')
     = Some (New ''repository name is required'')"
    by (simp add: collaborators_example_def nodeprop_args_example_def required_def)
  show ?thesis
    using validation_failure_has_no_effect
      [of "collaborators_example None" "workflow_args_example ''''"
          "New ''repository is required''" "\<lambda>n. 100" manager_example
          "secret_args_example ''''" "nodeprop_args_example ''''" "''uuid-1''" "[]"]
      validation_failure_has_no_effect
      [of "collaborators_example None" "workflow_args_example ''''"
          "New ''repository name is required''" "\<lambda>n. 100" manager_example
          "secret_args_example ''''" "nodeprop_args_example ''''" "''uuid-1''" "[]"]
      w s n
    by (simp add: manager_example_def)
qed

subsection \<open>A GitHub call that fails\<close>

text \<open>
  Claim C2, as the code has it. When the arguments are valid and the call on the GitHub
  client fails, \<open>AddWorkflow\<close>, \<open>AddSecret\<close> and \<open>GenerateNodeProp\<close> return the
  client's error wrapped with the name of the operation. The only effect is the call that
  was made: no event is emitted, and the cache is not touched.
\<close>

theorem collaborator_failure_is_returned:
  "(ValidateWorkflowArgs env wargs = None \<and>
    (if WorkflowArguments.Template wargs \<noteq> ''''
     then ProcessTemplate env (WorkflowArguments.Template wargs)
            (WorkflowArguments.Variables wargs)
     else Inr (WorkflowArguments.Content wargs)) = Inr content \<and>
    CreateWorkflow env (WorkflowArguments.Repository wargs) (WorkflowArguments.Name wargs)
      content = Some err \<longrightarrow>
      AddWorkflow env clock wargs m =
        (Some (Errorf ''failed to create workflow: '' err),
         m\<lparr>github_calls := github_calls m @
              [CallCreateWorkflow (WorkflowArguments.Repository wargs)
                 (WorkflowArguments.Name wargs) content]\<rparr>)) \<and>
   (ValidateSecretArgs env sargs = None \<and>
    CreateSecret env (SecretArguments.Repository sargs) (SecretArguments.Name sargs)
      (SecretArguments.Value sargs) (SecretArguments.Visibility sargs) = Some err \<longrightarrow>
      AddSecret env clock sargs m =
        (Some (Errorf ''failed to create secret: '' err),
         m\<lparr>github_calls := github_calls m @
              [CallCreateSecret (SecretArguments.Repository sargs)
                 (SecretArguments.Name sargs) (SecretArguments.Value sargs)
                 (SecretArguments.Visibility sargs)]\<rparr>)) \<and>
   (ValidateNodePropArgs env nargs = None \<and>
    ValidateNodeProp env (new_NodePropFile env (clock 0) uuid nargs) = None \<and>
    Marshal env (new_NodePropFile env (clock 0) uuid nargs) = Inr data \<and>
    CreateFile env (RepoPath nargs) ''.nodeprop.yml'' data = Some err \<longrightarrow>
      GenerateNodeProp env clock uuid ks nargs m =
        (Some (Errorf ''failed to create nodeprop file: '' err),
         m\<lparr>github_calls := github_calls m @
              [CallCreateFile (RepoPath nargs) ''.nodeprop.yml'' data]\<rparr>))"
proof (intro conjI impI)
  assume "ValidateWorkflowArgs env wargs = None \<and>
    (if WorkflowArguments.Template wargs \<noteq> ''''
     then ProcessTemplate env (WorkflowArguments.Template wargs)
            (WorkflowArguments.Variables wargs)
     else Inr (WorkflowArguments.Content wargs)) = Inr content \<and>
    CreateWorkflow env (WorkflowArguments.Repository wargs) (WorkflowArguments.Name wargs)
      content = Some err"
  then show "AddWorkflow env clock wargs m =
        (Some (Errorf ''failed to create workflow: '' err),
         m\<lparr>github_calls := github_calls m @
              [CallCreateWorkflow (WorkflowArguments.Repository wargs)
                 (WorkflowArguments.Name wargs) content]\<rparr>)"
    by (simp add: AddWorkflow_def Let_def)
next
  assume "ValidateSecretArgs env sargs = None \<and>
    CreateSecret env (SecretArguments.Repository sargs) (SecretArguments.Name sargs)
      (SecretArguments.Value sargs) (SecretArguments.Visibility sargs) = Some err"
  then show "AddSecret env clock sargs m =
        (Some (Errorf ''failed to create secret: '' err),
         m\<lparr>github_calls := github_calls m @
              [CallCreateSecret (SecretArguments.Repository sargs)
                 (SecretArguments.Name sargs) (SecretArguments.Value sargs)
                 (SecretArguments.Visibility sargs)]\<rparr>)"
    by (simp add: AddSecret_def Let_def)
next
  assume "ValidateNodePropArgs env nargs = None \<and>
    ValidateNodeProp env (new_NodePropFile env (clock 0) uuid nargs) = None \<and>
    Marshal env (new_NodePropFile env (clock 0) uuid nargs) = Inr data \<and>
    CreateFile env (RepoPath nargs) ''.nodeprop.yml'' data = Some err"
  then show "GenerateNodeProp env clock uuid ks nargs m =
        (Some (Errorf ''failed to create nodeprop file: '' err),
         m\<lparr>github_calls := github_calls m @
              [CallCreateFile (RepoPath nargs) ''.nodeprop.yml'' data]\<rparr>)"
    by (simp add: GenerateNodeProp_def Let_def)
qed

lemma example_eval:
  "ValidateWorkflowArgs (collaborators_example g) (workflow_args_example ''owner/repo'') = None"
  "ValidateSecretArgs (collaborators_example g) (secret_args_example ''owner/repo'') = None"
  "ValidateNodePropArgs (collaborators_example g) (nodeprop_args_example ''svc'') = None"
  "ValidateNodeProp (collaborators_example g) (new_NodePropFile e t u (nodeprop_args_example ''svc''))
     = None"
  "Marshal (collaborators_example g) (new_NodePropFile e t u (nodeprop_args_example ''svc''))
     = Inr (''id: '' @ u @ '' name: svc'')"
  "CreateWorkflow (collaborators_example g) r n c = g"
  "CreateSecret (collaborators_example g) r n v vis = g"
  "CreateFile (collaborators_example g) r p d = g"
  by (simp_all add: collaborators_example_def workflow_args_example_def secret_args_example_def
      nodeprop_args_example_def required_def new_NodePropFile_def)

text \<open>
  The claim as the specification states it has an error event emitted besides. With a
  GitHub client that answers every call with an error, each of the three operations
  returns the wrapped error and the list of emitted events stays empty.
\<close>

theorem collaborator_failure_counterexample:
  "fst (AddWorkflow (collaborators_example (Some (New ''github error''))) (\<lambda>n. 100)
          (workflow_args_example ''owner/repo'') manager_example)
     = Some (Errorf ''failed to create workflow: '' (New ''github error'')) \<and>
   emitted (snd (AddWorkflow (collaborators_example (Some (New ''github error''))) (\<lambda>n. 100)
          (workflow_args_example ''owner/repo'') manager_example)) = [] \<and>
   emitted (snd (AddSecret (collaborators_example (Some (New ''github error''))) (\<lambda>n. 100)
          (secret_args_example ''owner/repo'') manager_example)) = [] \<and>
   emitted (snd (GenerateNodeProp (collaborators_example (Some (New ''github error'')))
          (\<lambda>n. 100) ''uuid-1'' [] (nodeprop_args_example ''svc'') manager_example)) = []"
  by (simp add: AddWorkflow_def AddSecret_def GenerateNodeProp_def Let_def example_eval
      manager_example_def)
    (simp add: workflow_args_example_def)

theorem collaborator_failure_is_returned_witness:
  "ValidateWorkflowArgs (collaborators_example (Some (New ''github error'')))
     (workflow_args_example ''owner/repo'') = None \<and>
   CreateWorkflow (collaborators_example (Some (New ''github error''))) ''owner/repo'' ''ci''
     ''name: CI'' = Some (New ''github error'') \<and>
   AddWorkflow (collaborators_example (Some (New ''github error''))) (\<lambda>n. 100)
     (workflow_args_example ''owner/repo'') manager_example =
     (Some (Errorf ''failed to create workflow: '' (New ''github error'')),
      manager_example\<lparr>github_calls := [CallCreateWorkflow ''owner/repo'' ''ci'' ''name: CI'']\<rparr>) \<and>
   fst (AddSecret (collaborators_example (Some (New ''github error''))) (\<lambda>n. 100)
     (secret_args_example ''owner/repo'') manager_example) =
     Some (Errorf ''failed to create secret: '' (New ''github error'')) \<and>
   fst (GenerateNodeProp (collaborators_example (Some (New ''github error''))) (\<lambda>n. 100)
     ''uuid-1'' [] (nodeprop_args_example ''svc'') manager_example) =
     Some (Errorf ''failed to create nodeprop file: '' (New ''github error''))"
  using collaborator_failure_is_returned
    [of "collaborators_example (Some (New ''github error''))"
        "workflow_args_example ''owner/repo''" "''name: CI''" "New ''github error''"
        "\<lambda>n. 100" manager_example "secret_args_example ''owner/repo''"
        "nodeprop_args_example ''svc''" "''uuid-1''" "''id: uuid-1 name: svc''" "[]"]
  by (simp add: example_eval)
    (simp add: workflow_args_example_def secret_args_example_def nodeprop_args_example_def
      manager_example_def)

subsection \<open>The descriptor that is generated\<close>

lemma GenerateNodeProp_success:
  assumes "GenerateNodeProp env clock uuid ks args m = (None, m')"
  shows "\<exists>data. Marshal env (new_NodePropFile env (clock 0) uuid args) = Inr data \<and>
     m' = Emit (Event_of EventTypeNodeProp ''NodePropGenerated''
                  (OfNodePropFile (new_NodePropFile env (clock 0) uuid args)))
            (m\<lparr>github_calls := github_calls m @
                   [CallCreateFile (RepoPath args) ''.nodeprop.yml'' data],
               cache := Set (clock 1) ks (''nodeprop:'' @ RepoPath args)
                          (OfNodePropFile (new_NodePropFile env (clock 0) uuid args))
                          3600000000000 (cache m)\<rparr>)"
  using assms
  by (auto simp: GenerateNodeProp_def Let_def split: option.splits sum.splits)

text \<open>
  The identifiers of the descriptors that a run of manager calls emits: they are pairwise
  different, and each was handed out by the generator during the run.
\<close>

lemma generated_ids_append: "generated_ids (xs @ ys) = generated_ids xs @ generated_ids ys"
  by (induction xs) (auto split: Payload.splits)

lemma AddWorkflow_emitted:
  "\<exists>d. emitted (snd (AddWorkflow env clock a m)) = emitted m @ d \<and> generated_ids d = []"
  by (auto simp: AddWorkflow_def Let_def Emit_def Event_of_def
      split: option.splits sum.splits)

lemma AddSecret_emitted:
  "\<exists>d. emitted (snd (AddSecret env clock a m)) = emitted m @ d \<and> generated_ids d = []"
  by (auto simp: AddSecret_def Let_def Emit_def Event_of_def split: option.splits)

lemma GenerateNodeProp_emitted:
  "\<exists>d. emitted (snd (GenerateNodeProp env clock u ks a m)) = emitted m @ d \<and>
       (generated_ids d = [] \<or> generated_ids d = [u] \<and> ValidateNodePropArgs env a = None)"
  by (auto simp: GenerateNodeProp_def Let_def Emit_def Event_of_def new_NodePropFile_def
      split: option.splits sum.splits)

lemma GenerateNodeProp_uuid_unfold:
  "GenerateNodeProp_uuid env clock ks a st =
     (fst (GenerateNodeProp env clock (fst (uuid_New (fst st))) ks a (snd st)),
      (if ValidateNodePropArgs env a = None then Suc (fst st) else fst st),
      snd (GenerateNodeProp env clock (fst (uuid_New (fst st))) ks a (snd st)))"
  by (simp add: GenerateNodeProp_uuid_def Let_def uuid_New_def split: prod.splits)

text \<open>
  One call: the generator does not go back, and the identifiers of the descriptors it
  emits are distinct and were handed out during the call.
\<close>

lemma manager_call_ids:
  "fst st \<le> fst (manager_call c st) \<and>
   (\<exists>d. emitted (snd (manager_call c st)) = emitted (snd st) @ d \<and>
        distinct (generated_ids d) \<and>
        (\<forall>u \<in> set (generated_ids d).
           \<exists>j. fst st \<le> j \<and> j < fst (manager_call c st) \<and> u = fst (uuid_New j)))"
proof (cases c)
  case (DoAddWorkflow env clock a)
  then show ?thesis using AddWorkflow_emitted [of env clock a "snd st"] by auto
next
  case (DoAddSecret env clock a)
  then show ?thesis using AddSecret_emitted [of env clock a "snd st"] by auto
next
  case (DoGenerateNodeProp env clock ks a)
  from GenerateNodeProp_emitted [of env clock "fst (uuid_New (fst st))" ks a "snd st"]
  obtain d where d: "emitted (snd (GenerateNodeProp env clock (fst (uuid_New (fst st))) ks a
                       (snd st))) = emitted (snd st) @ d"
    and g: "generated_ids d = [] \<or>
            generated_ids d = [fst (uuid_New (fst st))] \<and> ValidateNodePropArgs env a = None"
    by blast
  from g show ?thesis
  proof
    assume "generated_ids d = []"
    then show ?thesis using DoGenerateNodeProp d
      by (auto simp: GenerateNodeProp_uuid_unfold)
  next
    assume "generated_ids d = [fst (uuid_New (fst st))] \<and> ValidateNodePropArgs env a = None"
    then show ?thesis using DoGenerateNodeProp d
      by (auto simp: GenerateNodeProp_uuid_unfold)
  qed
next
  case DoNewUUID
  then show ?thesis by (simp add: uuid_New_next)
qed

lemma manager_calls_ids:
  "fst st \<le> fst (manager_calls cs st) \<and>
   (\<exists>d. emitted (snd (manager_calls cs st)) = emitted (snd st) @ d \<and>
        distinct (generated_ids d) \<and>
        (\<forall>u \<in> set (generated_ids d).
           \<exists>j. fst st \<le> j \<and> j < fst (manager_calls cs st) \<and> u = fst (uuid_New j)))"
proof (induction cs arbitrary: st)
  case Nil
  then show ?case by simp
next
  case (Cons c cs)
  let ?st1 = "manager_call c st"
  let ?st2 = "manager_calls cs ?st1"
  from manager_call_ids [of st c] obtain d1 where
    le1: "fst st \<le> fst ?st1" and
    e1: "emitted (snd ?st1) = emitted (snd st) @ d1" and
    di1: "distinct (generated_ids d1)" and
    r1: "\<forall>u \<in> set (generated_ids d1).
           \<exists>j. fst st \<le> j \<and> j < fst ?st1 \<and> u = fst (uuid_New j)"
    by blast
  from Cons.IH [of ?st1] obtain d2 where
    le2: "fst ?st1 \<le> fst ?st2" and
    e2: "emitted (snd ?st2) = emitted (snd ?st1) @ d2" and
    di2: "distinct (generated_ids d2)" and
    r2: "\<forall>u \<in> set (generated_ids d2).
           \<exists>j. fst ?st1 \<le> j \<and> j < fst ?st2 \<and> u = fst (uuid_New j)"
    by blast
  have disj: "set (generated_ids d1) \<inter> set (generated_ids d2) = {}"
  proof (rule ccontr)
    assume "set (generated_ids d1) \<inter> set (generated_ids d2) \<noteq> {}"
    then obtain u where u1: "u \<in> set (generated_ids d1)" and u2: "u \<in> set (generated_ids d2)"
      by blast
    from r1 u1 obtain i where i: "i < fst ?st1" "u = fst (uuid_New i)" by blast
    from r2 u2 obtain j where j: "fst ?st1 \<le> j" "u = fst (uuid_New j)" by blast
    from i j have "i = j" using uuid_New_inj [of i j] by simp
    with i j show False by simp
  qed
  have e: "emitted (snd ?st2) = emitted (snd st) @ (d1 @ d2)" using e1 e2 by simp
  have di: "distinct (generated_ids (d1 @ d2))"
    using di1 di2 disj by (simp add: generated_ids_append)
  have r: "\<forall>u \<in> set (generated_ids (d1 @ d2)).
           \<exists>j. fst st \<le> j \<and> j < fst ?st2 \<and> u = fst (uuid_New j)"
  proof
    fix u assume "u \<in> set (generated_ids (d1 @ d2))"
    then have "u \<in> set (generated_ids d1) \<or> u \<in> set (generated_ids d2)"
      by (simp add: generated_ids_append)
    then show "\<exists>j. fst st \<le> j \<and> j < fst ?st2 \<and> u = fst (uuid_New j)"
    proof
      assume "u \<in> set (generated_ids d1)"
      with r1 obtain j where "fst st \<le> j" "j < fst ?st1" "u = fst (uuid_New j)" by blast
      then show ?thesis using le2 by (intro exI [of _ j]) simp
    next
      assume "u \<in> set (generated_ids d2)"
      with r2 obtain j where "fst ?st1 \<le> j" "j < fst ?st2" "u = fst (uuid_New j)" by blast
      then show ?thesis using le1 by (intro exI [of _ j]) simp
    qed
  qed
  have "fst st \<le> fst ?st2" using le1 le2 by simp
  then show ?case using e di r by (simp only: manager_calls.simps) blast
qed

lemma manager_calls_new_ids:
  assumes "(n, m) = manager_calls cs (start, m0)"
  shows "distinct (generated_ids (drop (length (emitted m0)) (emitted m))) \<and>
         (\<forall>u \<in> set (generated_ids (drop (length (emitted m0)) (emitted m))).
            \<exists>j < n. u = fst (uuid_New j))"
proof -
  from manager_calls_ids [of "(start, m0)" cs] assms [symmetric] obtain d where
    e: "emitted m = emitted m0 @ d" and di: "distinct (generated_ids d)" and
    r: "\<forall>u \<in> set (generated_ids d). \<exists>j. start \<le> j \<and> j < n \<and> u = fst (uuid_New j)"
    by auto
  have "drop (length (emitted m0)) (emitted m) = d" using e by simp
  then show ?thesis using di r by auto
qed

text \<open>
  Claim C8. When \<open>GenerateNodeProp\<close> succeeds, the descriptor it has written (encoded, in
  the one \<open>CreateFile\<close> call), cached and emitted has the repository name as its name,
  the domain of the arguments in its custom properties, the status \<open>''active''\<close>, and as
  its identifier the string that \<open>uuid.New()\<close> returned for this call, which is not
  empty. After any run \<open>cs\<close> of manager calls the identifier is none of those of the
  descriptors generated during the run, so the identifiers of all the descriptors
  generated are pairwise different. The descriptor is built from the arguments, the
  identifier and the clock alone: from any other state \<open>other\<close> of the manager and its
  cache the same call produces the same descriptor.
\<close>

theorem GenerateNodeProp_descriptor:
  fixes env :: Collaborators and clock :: "nat \<Rightarrow> int" and n :: nat
    and args :: NodePropArguments
  defines "f \<equiv> new_NodePropFile env (clock 0) (fst (uuid_New n)) args"
  assumes run: "GenerateNodeProp_uuid env clock ks args (n, m) = (None, (n', m'))"
  shows "NodePropFile.Name f = RepoName args \<and>
     Domain (CustomProperties f) = NodePropArguments.Domain args \<and>
     NodePropFile.Status f = ''active'' \<and>
     NodePropFile.ID f \<noteq> '''' \<and>
     (\<exists>data. Marshal env f = Inr data \<and>
        github_calls m' =
          github_calls m @ [CallCreateFile (RepoPath args) ''.nodeprop.yml'' data]) \<and>
     emitted m' =
       emitted m @ [Event_of EventTypeNodeProp ''NodePropGenerated'' (OfNodePropFile f)] \<and>
     (\<exists>e. items (cache m') (''nodeprop:'' @ RepoPath args) =
        Some \<lparr>Value = OfNodePropFile f, Expiration = e\<rparr>) \<and>
     n' = Suc n \<and>
     ((n, m) = manager_calls cs (start, before) \<longrightarrow>
        NodePropFile.ID f \<notin> set (generated_ids (drop (length (emitted before)) (emitted m))) \<and>
        distinct (generated_ids (drop (length (emitted before)) (emitted m')))) \<and>
     (GenerateNodeProp_uuid env clock ks' args (n, other) = (None, (n'', other')) \<longrightarrow>
        last (emitted other') = last (emitted m'))"
proof -
  have v: "ValidateNodePropArgs env args = None"
    using run by (auto simp: GenerateNodeProp_uuid_unfold GenerateNodeProp_def
        split: option.splits)
  have g: "GenerateNodeProp env clock (fst (uuid_New n)) ks args m = (None, m')"
    using run by (simp add: GenerateNodeProp_uuid_unfold prod_eq_iff)
  from GenerateNodeProp_success [OF g] obtain data where
    d: "Marshal env f = Inr data" and
    m': "m' = Emit (Event_of EventTypeNodeProp ''NodePropGenerated'' (OfNodePropFile f))
            (m\<lparr>github_calls := github_calls m @
                   [CallCreateFile (RepoPath args) ''.nodeprop.yml'' data],
               cache := Set (clock 1) ks (''nodeprop:'' @ RepoPath args)
                          (OfNodePropFile f) 3600000000000 (cache m)\<rparr>)"
    unfolding f_def by blast
  have idf: "NodePropFile.ID f = fst (uuid_New n)"
    by (simp add: f_def new_NodePropFile_def)
  have a1: "NodePropFile.Name f = RepoName args"
    and a2: "Domain (CustomProperties f) = NodePropArguments.Domain args"
    and a3: "NodePropFile.Status f = ''active''"
    by (simp_all add: f_def new_NodePropFile_def)
  have a4: "NodePropFile.ID f \<noteq> ''''"
    using uuid_New_nonempty [of n] by (simp add: idf)
  have gh: "\<exists>data. Marshal env f = Inr data \<and>
        github_calls m' =
          github_calls m @ [CallCreateFile (RepoPath args) ''.nodeprop.yml'' data]"
    using d m' by (simp add: Emit_def)
  have e: "emitted m' =
       emitted m @ [Event_of EventTypeNodeProp ''NodePropGenerated'' (OfNodePropFile f)]"
    using m' by (simp add: Emit_def)
  have c: "\<exists>e. items (cache m') (''nodeprop:'' @ RepoPath args) =
        Some \<lparr>Value = OfNodePropFile f, Expiration = e\<rparr>"
    using m' by (simp add: Emit_def Set_stores)
  have nx: "n' = Suc n"
    using run v by (simp add: GenerateNodeProp_uuid_unfold)
  have pr: "(n, m) = manager_calls cs (start, before) \<longrightarrow>
        NodePropFile.ID f \<notin> set (generated_ids (drop (length (emitted before)) (emitted m))) \<and>
        distinct (generated_ids (drop (length (emitted before)) (emitted m')))"
  proof
    assume r: "(n, m) = manager_calls cs (start, before)"
    let ?old = "generated_ids (drop (length (emitted before)) (emitted m))"
    from manager_calls_new_ids [OF r] have
      di: "distinct ?old" and
      ra: "\<forall>u \<in> set ?old. \<exists>j < n. u = fst (uuid_New j)"
      by blast+
    have notin: "NodePropFile.ID f \<notin> set ?old"
    proof
      assume "NodePropFile.ID f \<in> set ?old"
      with ra obtain j where "j < n" "NodePropFile.ID f = fst (uuid_New j)" by blast
      then show False using uuid_New_inj [of n j] by (simp add: idf)
    qed
    have le: "length (emitted before) \<le> length (emitted m)"
      using manager_calls_ids [of "(start, before)" cs] r [symmetric] by auto
    have "generated_ids (drop (length (emitted before)) (emitted m')) =
            ?old @ [NodePropFile.ID f]"
      using le by (simp add: e generated_ids_append Event_of_def)
    then show "NodePropFile.ID f \<notin> set ?old \<and>
        distinct (generated_ids (drop (length (emitted before)) (emitted m')))"
      using notin di by simp
  qed
  have ind: "GenerateNodeProp_uuid env clock ks' args (n, other) = (None, (n'', other')) \<longrightarrow>
        last (emitted other') = last (emitted m')"
  proof
    assume "GenerateNodeProp_uuid env clock ks' args (n, other) = (None, (n'', other'))"
    then have "GenerateNodeProp env clock (fst (uuid_New n)) ks' args other = (None, other')"
      by (simp add: GenerateNodeProp_uuid_unfold prod_eq_iff)
    from GenerateNodeProp_success [OF this] have
      "last (emitted other') =
         Event_of EventTypeNodeProp ''NodePropGenerated'' (OfNodePropFile f)"
      unfolding f_def by (auto simp: Emit_def)
    then show "last (emitted other') = last (emitted m')" using e by simp
  qed
  show ?thesis by (intro conjI a1 a2 a3 a4 gh e c nx pr ind)
qed

text \<open>
  A workflow is added and a descriptor generated; a second descriptor is then generated
  for the same repository.
\<close>

lemma manager_example_emitted: "emitted manager_example = []"
  by (simp add: manager_example_def)

lemma generated_example_state:
  "fst generated_example = Suc 0"
  "generated_ids (emitted (snd generated_example)) = [''u'']"
proof -
  let ?w = "snd (AddWorkflow (collaborators_example None) (\<lambda>n. 100)
                     (workflow_args_example ''owner/repo'') manager_example)"
  have g: "generated_example =
     (Suc 0, snd (GenerateNodeProp (collaborators_example None) (\<lambda>n. 100) ''u'' []
             (nodeprop_args_example ''svc'') ?w))"
    by (simp add: generated_example_def GenerateNodeProp_uuid_unfold example_eval
        uuid_New_eval)
  show "fst generated_example = Suc 0" by (simp add: g)
  from AddWorkflow_emitted [of "collaborators_example None" "\<lambda>n. 100"
      "workflow_args_example ''owner/repo''" manager_example]
  have w: "generated_ids (emitted ?w) = []"
    by (auto simp: manager_example_emitted)
  have "emitted (snd (GenerateNodeProp (collaborators_example None) (\<lambda>n. 100) ''u'' []
             (nodeprop_args_example ''svc'') ?w)) =
        emitted ?w @ [Event_of EventTypeNodeProp ''NodePropGenerated''
          (OfNodePropFile (new_NodePropFile (collaborators_example None) 100 ''u''
             (nodeprop_args_example ''svc'')))]"
    by (simp add: GenerateNodeProp_def Let_def example_eval Emit_def)
  then show "generated_ids (emitted (snd generated_example)) = [''u'']"
    by (simp add: g generated_ids_append w Event_of_def new_NodePropFile_def)
qed

lemma generated_example_again:
  "fst (GenerateNodeProp_uuid (collaborators_example None) (\<lambda>n. 200) ks
     (nodeprop_args_example ''svc'') st) = None"
  by (simp add: GenerateNodeProp_uuid_unfold GenerateNodeProp_def Let_def example_eval)

text \<open>
  The second descriptor has the identifier \<open>''uu''\<close>, the first has \<open>''u''\<close>; the cached
  first descriptor has no part in the second.
\<close>

theorem GenerateNodeProp_descriptor_witness:
  "generated_example = manager_calls
      [DoAddWorkflow (collaborators_example None) (\<lambda>n. 100) (workflow_args_example ''owner/repo''),
       DoGenerateNodeProp (collaborators_example None) (\<lambda>n. 100) []
         (nodeprop_args_example ''svc'')]
      (0, manager_example) \<and>
   generated_ids (emitted (snd generated_example)) = [''u''] \<and>
   fst (GenerateNodeProp_uuid (collaborators_example None) (\<lambda>n. 200) [''nodeprop:owner/svc'']
          (nodeprop_args_example ''svc'') generated_example) = None \<and>
   fst (GenerateNodeProp_uuid (collaborators_example None) (\<lambda>n. 200) []
          (nodeprop_args_example ''svc'') (Suc 0, manager_example)) = None \<and>
   fst (snd (GenerateNodeProp_uuid (collaborators_example None) (\<lambda>n. 200)
          [''nodeprop:owner/svc''] (nodeprop_args_example ''svc'') generated_example))
     = Suc (Suc 0) \<and>
   NodePropFile.ID (new_NodePropFile (collaborators_example None) 200 ''uu''
     (nodeprop_args_example ''svc'')) \<noteq> '''' \<and>
   NodePropFile.Name (new_NodePropFile (collaborators_example None) 200 ''uu''
     (nodeprop_args_example ''svc'')) = ''svc'' \<and>
   Domain (CustomProperties (new_NodePropFile (collaborators_example None) 200 ''uu''
     (nodeprop_args_example ''svc''))) = ''example.com'' \<and>
   NodePropFile.ID (new_NodePropFile (collaborators_example None) 200 ''uu''
     (nodeprop_args_example ''svc'')) \<notin> set (generated_ids (emitted (snd generated_example))) \<and>
   distinct (generated_ids (emitted (snd (snd (GenerateNodeProp_uuid
     (collaborators_example None) (\<lambda>n. 200) [''nodeprop:owner/svc'']
     (nodeprop_args_example ''svc'') generated_example))))) \<and>
   last (emitted (snd (snd (GenerateNodeProp_uuid (collaborators_example None) (\<lambda>n. 200)
     [''nodeprop:owner/svc''] (nodeprop_args_example ''svc'') generated_example)))) =
     Event_of EventTypeNodeProp ''NodePropGenerated''
       (OfNodePropFile (new_NodePropFile (collaborators_example None) 200 ''uu''
          (nodeprop_args_example ''svc''))) \<and>
   last (emitted (snd (snd (GenerateNodeProp_uuid (collaborators_example None) (\<lambda>n. 200) []
     (nodeprop_args_example ''svc'') (Suc 0, manager_example))))) =
   last (emitted (snd (snd (GenerateNodeProp_uuid (collaborators_example None) (\<lambda>n. 200)
     [''nodeprop:owner/svc''] (nodeprop_args_example ''svc'') generated_example))))"
proof -
  let ?second = "GenerateNodeProp_uuid (collaborators_example None) (\<lambda>n. 200)
     [''nodeprop:owner/svc''] (nodeprop_args_example ''svc'') generated_example"
  let ?other = "GenerateNodeProp_uuid (collaborators_example None) (\<lambda>n. 200) []
     (nodeprop_args_example ''svc'') (Suc 0, manager_example)"
  have p: "(Suc 0, snd generated_example) = generated_example"
    using generated_example_state(1) by (simp add: prod_eq_iff)
  have run: "GenerateNodeProp_uuid (collaborators_example None) (\<lambda>n. 200)
     [''nodeprop:owner/svc''] (nodeprop_args_example ''svc'') (Suc 0, snd generated_example)
     = (None, (fst (snd ?second), snd (snd ?second)))"
    using generated_example_again [of "[''nodeprop:owner/svc'']" generated_example]
    by (simp add: p prod_eq_iff)
  define cs where "cs = [DoAddWorkflow (collaborators_example None) (\<lambda>n. 100)
         (workflow_args_example ''owner/repo''),
       DoGenerateNodeProp (collaborators_example None) (\<lambda>n. 100) []
         (nodeprop_args_example ''svc'')]"
  have reach: "(Suc 0, snd generated_example) = manager_calls cs (0, manager_example)"
    using p by (simp only: cs_def generated_example_def [symmetric])
  have other: "?other = (None, (fst (snd ?other), snd (snd ?other)))"
    using generated_example_again [of "[]" "(Suc 0, manager_example)"]
    by (simp add: prod_eq_iff)
  note th = GenerateNodeProp_descriptor [where env = "collaborators_example None"
      and clock = "\<lambda>n. 200" and ks = "[''nodeprop:owner/svc'']"
      and args = "nodeprop_args_example ''svc''" and n = "Suc 0"
      and m = "snd generated_example" and cs = cs and start = 0 and before = manager_example
      and ks' = "[]" and other = manager_example
      and n'' = "fst (snd ?other)" and other' = "snd (snd ?other)", OF run]
  have d: "drop (length (emitted manager_example)) xs = xs" for xs :: "Payload Event list"
    by (simp add: manager_example_emitted)
  note th' = th [unfolded uuid_New_eval d]
  from th' reach have
    fr: "NodePropFile.ID (new_NodePropFile (collaborators_example None) 200 ''uu''
          (nodeprop_args_example ''svc'')) \<notin> set (generated_ids (emitted (snd generated_example)))
        \<and> distinct (generated_ids (emitted (snd (snd ?second))))"
    by blast
  from th' other have
    sm: "last (emitted (snd (snd ?other))) = last (emitted (snd (snd ?second)))"
    by blast
  from th' have
    a: "NodePropFile.Name (new_NodePropFile (collaborators_example None) 200 ''uu''
          (nodeprop_args_example ''svc'')) = RepoName (nodeprop_args_example ''svc'')" and
    b: "Domain (CustomProperties (new_NodePropFile (collaborators_example None) 200 ''uu''
          (nodeprop_args_example ''svc''))) = NodePropArguments.Domain (nodeprop_args_example ''svc'')" and
    c: "NodePropFile.ID (new_NodePropFile (collaborators_example None) 200 ''uu''
          (nodeprop_args_example ''svc'')) \<noteq> []" and
    e: "emitted (snd (snd ?second)) = emitted (snd generated_example) @
          [Event_of EventTypeNodeProp ''NodePropGenerated''
             (OfNodePropFile (new_NodePropFile (collaborators_example None) 200 ''uu''
                (nodeprop_args_example ''svc'')))]" and
    nx: "fst (snd ?second) = Suc (Suc 0)"
    by blast+
  have first: "generated_example = manager_calls
      [DoAddWorkflow (collaborators_example None) (\<lambda>n. 100) (workflow_args_example ''owner/repo''),
       DoGenerateNodeProp (collaborators_example None) (\<lambda>n. 100) []
         (nodeprop_args_example ''svc'')]
      (0, manager_example)"
    by (simp only: generated_example_def)
  have la: "last (emitted (snd (snd ?second))) =
     Event_of EventTypeNodeProp ''NodePropGenerated''
       (OfNodePropFile (new_NodePropFile (collaborators_example None) 200 ''uu''
          (nodeprop_args_example ''svc'')))"
    by (simp add: e)
  have a': "NodePropFile.Name (new_NodePropFile (collaborators_example None) 200 ''uu''
          (nodeprop_args_example ''svc'')) = ''svc''"
    using a by (simp add: nodeprop_args_example_def)
  have b': "Domain (CustomProperties (new_NodePropFile (collaborators_example None) 200 ''uu''
          (nodeprop_args_example ''svc''))) = ''example.com''"
    using b by (simp add: nodeprop_args_example_def)
  show ?thesis
    by (intro conjI first generated_example_state(2) generated_example_again nx c a' b'
        fr [THEN conjunct1] fr [THEN conjunct2] la sm)
qed

end
